theory Spec2Isabelle
  imports Complex_Main
begin

section \<open>The DASH video source: live seek window and manifest refresh\<close>

text \<open>
  A shallow embedding of \<^verbatim>\<open>lib/player/dash_video_source.js\<close>. The object's fields and
  the parts of the browser it touches (the wall clock, the timer registry, the video
  element's position, the requests it sent, the events it dispatched) are one record;
  every method is a function from the record to the updated record.

  JavaScript numbers are modelled as exact reals: NaN and the infinities are outside the
  model, and so is the rounding of the IEEE doubles, except for the arithmetic of the seek
  window, which is given a second time with the rounding written out. A nullable number (\<^verbatim>\<open>?number\<close>) is an
  \<open>option\<close>, and JavaScript's truthiness test on it is written out, since \<^verbatim>\<open>0\<close>
  is falsy as \<^verbatim>\<open>null\<close> is. Logging and \<^verbatim>\<open>shaka.asserts.assert\<close> report
  to the console and change neither the state nor the control flow; they have no
  counterpart below. Reading a property of \<^verbatim>\<open>null\<close> throws, which is the error value
  \<open>TypeError\<close>. The private members of the source end in an underscore; they are
  named without it here. \<^verbatim>\<open>attach\<close> and \<^verbatim>\<open>load\<close> hand over to the base class
  and are not modelled: the states they lead to are given directly.
\<close>

subsection \<open>Manifest data\<close>

record segmentReference =
  startTime :: real

text \<open>
  Modelled from the spec: \<^verbatim>\<open>shaka.media.SegmentIndex\<close> is declared outside this file.
  A segment index is an ordered sequence of segment references;
  \<^verbatim>\<open>getNumReferences()\<close> is its length and \<^verbatim>\<open>getReference(i)\<close> the reference at
  position \<open>i\<close>, or \<^verbatim>\<open>null\<close> when there is none (the caller tests the result).
\<close>

type_synonym segmentIndex = "segmentReference list"

definition getNumReferences :: "segmentIndex \<Rightarrow> int" where
  "getNumReferences ix = int (length ix)"

definition getReference :: "segmentIndex \<Rightarrow> int \<Rightarrow> segmentReference option" where
  "getReference ix i = (if 0 \<le> i \<and> i < int (length ix) then Some (ix ! nat i) else None)"

record streamInfo =
  segmentIndex :: "segmentIndex option"

record streamSetInfo =
  streamInfos :: "streamInfo list"

record periodInfo =
  streamSetInfos :: "streamSetInfo list"

record manifestInfo =
  live :: bool
  periodInfos :: "periodInfo list"

text \<open>
  Modelled from the spec: \<^verbatim>\<open>shaka.dash.MpdProcessor\<close> is outside this file. A
  fetched MPD exposes its \<^verbatim>\<open>timeShiftBufferDepth\<close> and \<^verbatim>\<open>minUpdatePeriod\<close>, both
  optional; the manifest info the processor produces for it travels with it as the field
  \<open>processed\<close>.
\<close>

record mpd =
  mpd_timeShiftBufferDepth :: "real option"
  mpd_minUpdatePeriod :: "real option"
  processed :: manifestInfo

text \<open>The result of the base class's \<^verbatim>\<open>computeStreamLimits()\<close>.\<close>

record streamLimits =
  limits_start :: real
  limits_end :: real

subsection \<open>The object and its environment\<close>

datatype error = TypeError

text \<open>
  A callback handed to \<^verbatim>\<open>window.setTimeout\<close>: \<^verbatim>\<open>this.onUpdate_.bind(this)\<close>, or
  \<^verbatim>\<open>this.onSeekRangeUpdate_.bind(this, Date.now())\<close> with the bound wall time.
\<close>

datatype timerCallback = OnUpdate | OnSeekRangeUpdate real

record dashVideoSource =
  \<comment> \<open>fields of \<^verbatim>\<open>DashVideoSource\<close>\<close>
  interpretContentProtection :: "nat option"
  targetUpdateTime :: "real option"
  lastMpdFetchTime :: "real option"
  updateTimer :: "nat option"
  timeShiftBufferDepth :: real
  seekStartTime :: real
  seekEndTime :: real
  seekRangeUpdateTimer :: "nat option"
  \<comment> \<open>fields of the base class \<^verbatim>\<open>StreamVideoSource\<close>\<close>
  manifestInfo :: "manifestInfo option"
  videoCurrentTime :: real
  streamResyncs :: nat
  \<comment> \<open>the browser\<close>
  now :: real
  timersCreated :: nat
  pendingTimers :: "(nat \<times> timerCallback \<times> real) list"
  mpdRequestsSent :: nat
  seekRangeChangedEvents :: "(real \<times> real) list"

definition MIN_UPDATE_INTERVAL :: real where
  "MIN_UPDATE_INTERVAL = 3"

text \<open>The object as the constructor leaves it, in a browser whose clock reads \<open>t\<close>.\<close>

definition DashVideoSource :: "nat option \<Rightarrow> real \<Rightarrow> dashVideoSource" where
  "DashVideoSource cb t =
     \<lparr> interpretContentProtection = cb,
       targetUpdateTime = None,
       lastMpdFetchTime = None,
       updateTimer = None,
       timeShiftBufferDepth = 0,
       seekStartTime = 0,
       seekEndTime = 0,
       seekRangeUpdateTimer = None,
       manifestInfo = None,
       videoCurrentTime = 0,
       streamResyncs = 0,
       now = t,
       timersCreated = 0,
       pendingTimers = [],
       mpdRequestsSent = 0,
       seekRangeChangedEvents = [] \<rparr>"

subsection \<open>JavaScript coercions\<close>

text \<open>\<^verbatim>\<open>if (x)\<close> on a nullable number: \<^verbatim>\<open>null\<close> and \<^verbatim>\<open>0\<close> are falsy.\<close>

definition truthy :: "real option \<Rightarrow> bool" where
  "truthy x = (case x of None \<Rightarrow> False | Some v \<Rightarrow> v \<noteq> 0)"

definition truthyHandle :: "nat option \<Rightarrow> bool" where
  "truthyHandle x = (case x of None \<Rightarrow> False | Some h \<Rightarrow> h \<noteq> 0)"

text \<open>\<^verbatim>\<open>x || 0\<close> on a nullable number, and \<^verbatim>\<open>null\<close> read as a number in arithmetic.\<close>

definition orZero :: "real option \<Rightarrow> real" where
  "orZero x = (if truthy x then (case x of Some v \<Rightarrow> v | None \<Rightarrow> 0) else 0)"

definition toNumber :: "real option \<Rightarrow> real" where
  "toNumber x = (case x of None \<Rightarrow> 0 | Some v \<Rightarrow> v)"

subsection \<open>The browser's timers\<close>

text \<open>
  \<^verbatim>\<open>window.setTimeout\<close> registers the callback and returns a fresh handle, a positive
  integer; \<^verbatim>\<open>window.clearTimeout\<close> removes the registration with that handle, if any.
\<close>

definition setTimeout :: "timerCallback \<Rightarrow> real \<Rightarrow> dashVideoSource \<Rightarrow> nat \<times> dashVideoSource" where
  "setTimeout cb ms s =
     (let h = Suc (timersCreated s)
      in (h, s\<lparr>timersCreated := h, pendingTimers := pendingTimers s @ [(h, cb, ms)]\<rparr>))"

definition clearTimeout :: "nat \<Rightarrow> dashVideoSource \<Rightarrow> dashVideoSource" where
  "clearTimeout h s = s\<lparr>pendingTimers := filter (\<lambda>p. fst p \<noteq> h) (pendingTimers s)\<rparr>"

subsection \<open>Methods of the base class\<close>

text \<open>
  Modelled from the spec: \<^verbatim>\<open>StreamVideoSource.prototype.onSeeking\<close> is outside this
  file. It executes the accepted seek; here it is a counted call that leaves the
  position as requested.
\<close>

definition baseOnSeeking :: "dashVideoSource \<Rightarrow> dashVideoSource" where
  "baseOnSeeking s = s\<lparr>streamResyncs := Suc (streamResyncs s)\<rparr>"

text \<open>
  Modelled from the spec: \<^verbatim>\<open>StreamVideoSource.prototype.updateManifest\<close> is outside
  this file. A successful refresh replaces the prior snapshot by the new one.
\<close>

definition updateManifest :: "manifestInfo \<Rightarrow> dashVideoSource \<Rightarrow> dashVideoSource" where
  "updateManifest mi s = s\<lparr>manifestInfo := Some mi\<rparr>"

text \<open>
  Modelled from the spec: \<^verbatim>\<open>StreamVideoSource.prototype.destroy\<close> is outside this
  file. The snapshot is destroyed when the source is torn down.
\<close>

definition baseDestroy :: "dashVideoSource \<Rightarrow> dashVideoSource" where
  "baseDestroy s = s\<lparr>manifestInfo := None\<rparr>"

subsection \<open>Timers of the source\<close>

definition cancelUpdateTimer :: "dashVideoSource \<Rightarrow> dashVideoSource" where
  "cancelUpdateTimer s =
     (if truthyHandle (updateTimer s)
      then (case updateTimer s of
              Some h \<Rightarrow> (clearTimeout h s)\<lparr>updateTimer := None\<rparr>
            | None \<Rightarrow> s)
      else s)"

definition cancelSeekRangeUpdateTimer :: "dashVideoSource \<Rightarrow> dashVideoSource" where
  "cancelSeekRangeUpdateTimer s =
     (if truthyHandle (seekRangeUpdateTimer s)
      then (case seekRangeUpdateTimer s of
              Some h \<Rightarrow> (clearTimeout h s)\<lparr>seekRangeUpdateTimer := None\<rparr>
            | None \<Rightarrow> s)
      else s)"

definition setUpdateTimer :: "real \<Rightarrow> dashVideoSource \<Rightarrow> dashVideoSource" where
  "setUpdateTimer minUpdatePeriod' s =
     (let updateInterval = max minUpdatePeriod' MIN_UPDATE_INTERVAL;
          ms = 1000 * updateInterval;
          (h, s1) = setTimeout OnUpdate ms s
      in s1\<lparr>updateTimer := Some h\<rparr>)"

definition setSeekRangeUpdateTimer :: "dashVideoSource \<Rightarrow> dashVideoSource" where
  "setSeekRangeUpdateTimer s =
     (let callback = OnSeekRangeUpdate (now s);
          (h, s1) = setTimeout callback 1000 s
      in s1\<lparr>seekRangeUpdateTimer := Some h\<rparr>)"

definition fireSeekRangeChangedEvent :: "dashVideoSource \<Rightarrow> dashVideoSource" where
  "fireSeekRangeChangedEvent s =
     s\<lparr>seekRangeChangedEvents :=
         seekRangeChangedEvents s @ [(seekStartTime s, seekEndTime s)]\<rparr>"

subsection \<open>\<^verbatim>\<open>destroy\<close>\<close>

definition destroy :: "dashVideoSource \<Rightarrow> dashVideoSource" where
  "destroy s =
     (let s1 = cancelUpdateTimer s;
          s2 = cancelSeekRangeUpdateTimer s1;
          s3 = s2\<lparr>interpretContentProtection := None\<rparr>
      in baseDestroy s3)"

subsection \<open>\<^verbatim>\<open>setTargetUpdateTime_\<close>\<close>

text \<open>
  The body of the innermost loop: a stream without a segment index is skipped
  (\<^verbatim>\<open>continue\<close>), as is one whose index has no reference at the position asked for.
\<close>

definition streamStep :: "real \<Rightarrow> streamInfo \<Rightarrow> real" where
  "streamStep mx si =
     (case segmentIndex si of
        None \<Rightarrow> mx
      | Some ix \<Rightarrow>
          (let index = max 0 (getNumReferences ix - 2)
           in case getReference ix index of
                None \<Rightarrow> mx
              | Some reference \<Rightarrow> max mx (startTime reference)))"

fun loopStreams :: "real \<Rightarrow> streamInfo list \<Rightarrow> real" where
  "loopStreams mx [] = mx"
| "loopStreams mx (si # sis) = loopStreams (streamStep mx si) sis"

fun loopStreamSets :: "real \<Rightarrow> streamSetInfo list \<Rightarrow> real" where
  "loopStreamSets mx [] = mx"
| "loopStreamSets mx (ss # sss) = loopStreamSets (loopStreams mx (streamInfos ss)) sss"

fun loopPeriods :: "real \<Rightarrow> periodInfo list \<Rightarrow> real" where
  "loopPeriods mx [] = mx"
| "loopPeriods mx (p # ps) = loopPeriods (loopStreamSets mx (streamSetInfos p)) ps"

definition setTargetUpdateTime :: "dashVideoSource \<Rightarrow> error + dashVideoSource" where
  "setTargetUpdateTime s =
     (case manifestInfo s of
        None \<Rightarrow> Inl TypeError
      | Some mi \<Rightarrow>
          (let mx = loopPeriods 0 (periodInfos mi);
               networkLatency = 2;
               t = mx - networkLatency
           in Inr (s\<lparr>targetUpdateTime := (if t \<ge> 0 then Some t else None)\<rparr>)))"

subsection \<open>\<^verbatim>\<open>onStartStreams\<close>\<close>

text \<open>The first argument is what \<^verbatim>\<open>this.computeStreamLimits()\<close> returned.\<close>

definition onStartStreams :: "streamLimits option \<Rightarrow> dashVideoSource \<Rightarrow> error + dashVideoSource" where
  "onStartStreams limits s =
     (case limits of
        None \<Rightarrow> Inr s
      | Some sl \<Rightarrow>
          (case manifestInfo s of
             None \<Rightarrow> Inl TypeError
           | Some mi \<Rightarrow>
               (let s1 = (if live mi
                          then s\<lparr>seekStartTime :=
                                   max (limits_end sl - timeShiftBufferDepth s) (limits_start sl)\<rparr>
                          else s\<lparr>seekStartTime := limits_start sl\<rparr>);
                    s2 = s1\<lparr>seekEndTime := limits_end sl\<rparr>
                in case setTargetUpdateTime s2 of
                     Inl e \<Rightarrow> Inl e
                   | Inr s3 \<Rightarrow>
                       (let s4 = fireSeekRangeChangedEvent s3
                        in Inr (if live mi then setSeekRangeUpdateTimer s4 else s4)))))"

subsection \<open>\<^verbatim>\<open>onSeeking\<close> and \<^verbatim>\<open>onPlay_\<close>\<close>

definition onSeeking :: "dashVideoSource \<Rightarrow> dashVideoSource" where
  "onSeeking s =
     (let currentTime = videoCurrentTime s;
          tolerance = 0.01
      in if currentTime \<ge> seekStartTime s - tolerance \<and>
            currentTime \<le> seekEndTime s + tolerance
         then baseOnSeeking s
         else (let targetTime = (if currentTime < seekStartTime s
                                 then seekStartTime s
                                 else seekEndTime s)
               in s\<lparr>videoCurrentTime := targetTime\<rparr>))"

definition onPlay :: "dashVideoSource \<Rightarrow> dashVideoSource" where
  "onPlay s = onSeeking s"

subsection \<open>\<^verbatim>\<open>onUpdate_\<close>\<close>

text \<open>
  The synchronous part: up to and including \<^verbatim>\<open>mpdRequest.send()\<close>. The request is
  then in flight.
\<close>

definition onUpdate :: "dashVideoSource \<Rightarrow> dashVideoSource" where
  "onUpdate s =
     (let s1 = cancelUpdateTimer s;
          currentTime = now s1 / 1000;
          s2 = s1\<lparr>lastMpdFetchTime := Some currentTime\<rparr>
      in s2\<lparr>mpdRequestsSent := Suc (mpdRequestsSent s2)\<rparr>)"

text \<open>The function passed to \<^verbatim>\<open>then\<close>: it runs when the request is fulfilled.\<close>

definition onUpdate_fulfilled :: "mpd \<Rightarrow> dashVideoSource \<Rightarrow> error + dashVideoSource" where
  "onUpdate_fulfilled m s =
     (let s1 = s\<lparr>timeShiftBufferDepth := orZero (mpd_timeShiftBufferDepth m)\<rparr>;
          s2 = updateManifest (processed m) s1;
          s3 = setUpdateTimer (orZero (mpd_minUpdatePeriod m)) s2
      in setTargetUpdateTime s3)"

text \<open>
  The request settles: \<^verbatim>\<open>then\<close> was given a fulfilment handler only, so a rejected
  request runs no code of the source.
\<close>

datatype fetchResult = Fulfilled mpd | Rejected

definition onUpdate_settled :: "fetchResult \<Rightarrow> dashVideoSource \<Rightarrow> error + dashVideoSource" where
  "onUpdate_settled r s =
     (case r of
        Fulfilled m \<Rightarrow> onUpdate_fulfilled m s
      | Rejected \<Rightarrow> Inr s)"

subsection \<open>\<^verbatim>\<open>onSeekRangeUpdate_\<close>\<close>

definition onSeekRangeUpdate :: "real \<Rightarrow> dashVideoSource \<Rightarrow> dashVideoSource" where
  "onSeekRangeUpdate startWallTime s =
     (let s1 = cancelSeekRangeUpdateTimer s;
          seekWindow = seekEndTime s1 - seekStartTime s1;
          offset = (now s1 - startWallTime) / 1000;
          s2 = (if seekWindow + offset > timeShiftBufferDepth s1
                then s1\<lparr>seekStartTime := seekStartTime s1 + offset,
                        seekEndTime := seekEndTime s1 + offset\<rparr>
                else s1\<lparr>seekEndTime := seekEndTime s1 + offset\<rparr>);
          s3 = (if truthy (targetUpdateTime s2) \<and>
                   seekEndTime s2 \<ge> toNumber (targetUpdateTime s2)
                then (let secondsSinceLastUpdate =
                            now s2 / 1000 - toNumber (lastMpdFetchTime s2)
                      in if secondsSinceLastUpdate \<ge> MIN_UPDATE_INTERVAL
                         then onUpdate s2
                         else s2)
                else s2);
          s4 = fireSeekRangeChangedEvent s3
      in setSeekRangeUpdateTimer s4)"

subsection \<open>Driving the window-advance timer\<close>

text \<open>
  One period of the window-advance timer: it was armed when the clock read \<open>now s\<close>,
  and its callback runs \<open>elapsed\<close> seconds later.
\<close>

definition advance :: "real \<Rightarrow> dashVideoSource \<Rightarrow> dashVideoSource" where
  "advance elapsed s = onSeekRangeUpdate (now s) (s\<lparr>now := now s + 1000 * elapsed\<rparr>)"

fun advances :: "real list \<Rightarrow> dashVideoSource \<Rightarrow> dashVideoSource" where
  "advances [] s = s"
| "advances (e # es) s = advances es (advance e s)"

subsection \<open>The target update time as the specification words it\<close>

text \<open>
  Every stream of every stream set of every period, in the order of the loops.
\<close>

definition allStreamInfos :: "manifestInfo \<Rightarrow> streamInfo list" where
  "allStreamInfos mi = concat (map streamInfos (concat (map streamSetInfos (periodInfos mi))))"

text \<open>
  The start time read for one stream: that of the reference at index
  \<open>max 0 (referenceCount - 2)\<close>. A stream without a segment index is skipped, and an
  index with no reference has none to read.
\<close>

definition secondLastStart :: "streamInfo \<Rightarrow> real option" where
  "secondLastStart si =
     (case segmentIndex si of
        None \<Rightarrow> None
      | Some ix \<Rightarrow>
          (if ix = [] then None
           else Some (startTime (ix ! nat (max 0 (int (length ix) - 2))))))"

text \<open>
  The maximum of these start times, less the latency allowance of 2 seconds, if that
  is not negative; \<open>None\<close> (the source's \<^verbatim>\<open>null\<close>) otherwise, and when no stream
  has a start time to read.
\<close>

definition estimate_spec :: "manifestInfo \<Rightarrow> real option" where
  "estimate_spec mi =
     (let starts = List.map_filter secondLastStart (allStreamInfos mi)
      in if starts = [] then None
         else (let m = Max (set starts); t = m - 2
               in if t \<ge> 0 then Some t else None))"

subsection \<open>Concrete manifests and states\<close>

definition streamWithStarts :: "real list \<Rightarrow> streamInfo" where
  "streamWithStarts ts = \<lparr> segmentIndex = Some (map (\<lambda>t. \<lparr> startTime = t \<rparr>) ts) \<rparr>"

definition liveManifest :: "streamInfo list \<Rightarrow> manifestInfo" where
  "liveManifest sis =
     \<lparr> live = True, periodInfos = [\<lparr> streamSetInfos = [\<lparr> streamInfos = sis \<rparr>] \<rparr>] \<rparr>"

text \<open>A live source whose manifest is loaded: depth 40, the window not yet set.\<close>

definition loadedSource :: "streamInfo list \<Rightarrow> dashVideoSource" where
  "loadedSource sis =
     (DashVideoSource None 0)
       \<lparr> manifestInfo := Some (liveManifest sis),
         timeShiftBufferDepth := 40,
         lastMpdFetchTime := Some 0 \<rparr>"

text \<open>The same source with the seek window \<open>[a, b]\<close>.\<close>

definition sourceWithWindow :: "real \<Rightarrow> real \<Rightarrow> dashVideoSource" where
  "sourceWithWindow a b = (loadedSource [])\<lparr> seekStartTime := a, seekEndTime := b \<rparr>"

text \<open>
  A source whose only stream has references starting at 2 and 4, so that its target
  update time is 0; the window is \<open>[0, 10]\<close> and the last fetch was 10 seconds ago.
\<close>

definition sourceWithTargetZero :: dashVideoSource where
  "sourceWithTargetZero =
     (loadedSource [streamWithStarts [2, 4]])
       \<lparr> targetUpdateTime := Some 0,
         seekStartTime := 0,
         seekEndTime := 10,
         now := 10000 \<rparr>"

text \<open>
  A source with a refresh in flight: \<^verbatim>\<open>onUpdate_\<close> has cancelled the refresh timer
  and sent the request; the window-advance timer is pending.
\<close>

definition sourceRefreshing :: dashVideoSource where
  "sourceRefreshing =
     (sourceWithWindow 10 50)
       \<lparr> lastMpdFetchTime := Some 3,
         now := 3000,
         seekRangeUpdateTimer := Some 2,
         timersCreated := 2,
         pendingTimers := [(2, OnSeekRangeUpdate 3000, 1000)],
         mpdRequestsSent := 1 \<rparr>"

definition fetchedMpd :: mpd where
  "fetchedMpd =
     \<lparr> mpd_timeShiftBufferDepth = Some 30,
       mpd_minUpdatePeriod = Some 5,
       processed = liveManifest [streamWithStarts [10, 20, 30]] \<rparr>"

text \<open>
  The source of \<open>loadedSource []\<close> after \<^verbatim>\<open>onStartStreams\<close> with stream limits
  \<open>[0, 50]\<close>: the window is \<open>[10, 50]\<close> and the window-advance timer is armed.
\<close>

definition startedSource :: dashVideoSource where
  "startedSource =
     (sourceWithWindow 10 50)
       \<lparr> seekRangeUpdateTimer := Some 1,
         timersCreated := 1,
         pendingTimers := [(1, OnSeekRangeUpdate 0, 1000)],
         seekRangeChangedEvents := [(10, 50)] \<rparr>"

text \<open>A source with both timers armed: handles 1 (refresh) and 2 (window advance).\<close>

definition sourceArmed :: dashVideoSource where
  "sourceArmed =
     (sourceWithWindow 10 50)
       \<lparr> updateTimer := Some 1,
         seekRangeUpdateTimer := Some 2,
         timersCreated := 2,
         pendingTimers := [(1, OnUpdate, 3000), (2, OnSeekRangeUpdate 0, 1000)] \<rparr>"

subsection \<open>The window arithmetic in doubles\<close>

text \<open>
  The source computes in IEEE 754 doubles: the result of each arithmetic operation is the
  exact result rounded to the nearest number with a significand of 53 bits, a tie going
  to the even significand. \<open>binary64\<close> is that rounding, with the exponent left unbounded
  (no overflow to infinity, no subnormal numbers: the seconds of a window are far from
  both).
\<close>

definition roundHalfEven :: "real \<Rightarrow> int" where
  "roundHalfEven q =
     (let f = \<lfloor>q\<rfloor>
      in if q - of_int f < 1 / 2 then f
         else if q - of_int f > 1 / 2 then f + 1
         else if even f then f else f + 1)"

definition binary64 :: "real \<Rightarrow> real" where
  "binary64 x =
     (if x = 0 then 0
      else (let e = \<lfloor>log 2 \<bar>x\<bar>\<rfloor>;
                u = 2 powr (of_int e - 52)
            in sgn x * of_int (roundHalfEven (\<bar>x\<bar> / u)) * u))"

text \<open>
  The window arithmetic of \<^verbatim>\<open>onStartStreams\<close> (the live branch) and of
  \<^verbatim>\<open>onSeekRangeUpdate_\<close> once more, on the pair \<open>(seekStartTime_, seekEndTime_)\<close>
  alone, with the rounding \<open>rnd\<close> applied to the result of every operation: with
  \<open>binary64\<close> it is what the source computes, with the identity it is the arithmetic of
  the functions above. The offset is the double \<^verbatim>\<open>(Date.now() - startWallTime) / 1000\<close>.
\<close>

definition initialWindow :: "(real \<Rightarrow> real) \<Rightarrow> real \<Rightarrow> streamLimits \<Rightarrow> real \<times> real" where
  "initialWindow rnd depth sl =
     (max (rnd (limits_end sl - depth)) (limits_start sl), limits_end sl)"

definition advanceWindow :: "(real \<Rightarrow> real) \<Rightarrow> real \<Rightarrow> real \<Rightarrow> real \<times> real \<Rightarrow> real \<times> real" where
  "advanceWindow rnd depth offset w =
     (let seekWindow = rnd (snd w - fst w)
      in if rnd (seekWindow + offset) > depth
         then (rnd (fst w + offset), rnd (snd w + offset))
         else (fst w, rnd (snd w + offset)))"

fun advancesWindow :: "(real \<Rightarrow> real) \<Rightarrow> real \<Rightarrow> real list \<Rightarrow> real \<times> real \<Rightarrow> real \<times> real" where
  "advancesWindow rnd depth [] w = w"
| "advancesWindow rnd depth (offset # offsets) w =
     advancesWindow rnd depth offsets (advanceWindow rnd depth offset w)"

text \<open>
  Stream limits \<open>[0, 50]\<close>, depth 40, and three fires of the window-advance timer, each
  1002 milliseconds after it was armed.
\<close>

definition roundedExample :: "real \<times> real" where
  "roundedExample =
     advancesWindow binary64 40
       [binary64 (1002 / 1000), binary64 (1002 / 1000), binary64 (1002 / 1000)]
       (initialWindow binary64 40 \<lparr>limits_start = 0, limits_end = 50\<rparr>)"

section \<open>Properties\<close>

subsection \<open>What each method leaves alone\<close>

lemma onUpdate_window:
  "seekStartTime (onUpdate s) = seekStartTime s"
  "seekEndTime (onUpdate s) = seekEndTime s"
  "timeShiftBufferDepth (onUpdate s) = timeShiftBufferDepth s"
  "now (onUpdate s) = now s"
  by (simp_all add: onUpdate_def cancelUpdateTimer_def clearTimeout_def Let_def
      split: option.splits)

lemma cancelSeekRangeUpdateTimer_window:
  "seekStartTime (cancelSeekRangeUpdateTimer s) = seekStartTime s"
  "seekEndTime (cancelSeekRangeUpdateTimer s) = seekEndTime s"
  "timeShiftBufferDepth (cancelSeekRangeUpdateTimer s) = timeShiftBufferDepth s"
  "now (cancelSeekRangeUpdateTimer s) = now s"
  "targetUpdateTime (cancelSeekRangeUpdateTimer s) = targetUpdateTime s"
  "lastMpdFetchTime (cancelSeekRangeUpdateTimer s) = lastMpdFetchTime s"
  "mpdRequestsSent (cancelSeekRangeUpdateTimer s) = mpdRequestsSent s"
  by (simp_all add: cancelSeekRangeUpdateTimer_def clearTimeout_def split: option.splits)

lemma onSeekRangeUpdate_seekStartTime:
  "seekStartTime (onSeekRangeUpdate w s) =
     (if seekEndTime s - seekStartTime s + (now s - w) / 1000 > timeShiftBufferDepth s
      then seekStartTime s + (now s - w) / 1000 else seekStartTime s)"
  by (simp add: onSeekRangeUpdate_def Let_def setSeekRangeUpdateTimer_def setTimeout_def
      fireSeekRangeChangedEvent_def onUpdate_window cancelSeekRangeUpdateTimer_window)

lemma onSeekRangeUpdate_seekEndTime:
  "seekEndTime (onSeekRangeUpdate w s) = seekEndTime s + (now s - w) / 1000"
  by (simp add: onSeekRangeUpdate_def Let_def setSeekRangeUpdateTimer_def setTimeout_def
      fireSeekRangeChangedEvent_def onUpdate_window cancelSeekRangeUpdateTimer_window)

lemma onSeekRangeUpdate_timeShiftBufferDepth:
  "timeShiftBufferDepth (onSeekRangeUpdate w s) = timeShiftBufferDepth s"
  by (simp add: onSeekRangeUpdate_def Let_def setSeekRangeUpdateTimer_def setTimeout_def
      fireSeekRangeChangedEvent_def onUpdate_window cancelSeekRangeUpdateTimer_window)

lemma advance_seekStartTime:
  "seekStartTime (advance e s) =
     (if seekEndTime s - seekStartTime s + e > timeShiftBufferDepth s
      then seekStartTime s + e else seekStartTime s)"
  by (simp add: advance_def onSeekRangeUpdate_seekStartTime)

lemma advance_seekEndTime: "seekEndTime (advance e s) = seekEndTime s + e"
  by (simp add: advance_def onSeekRangeUpdate_seekEndTime)

lemma advance_timeShiftBufferDepth:
  "timeShiftBufferDepth (advance e s) = timeShiftBufferDepth s"
  by (simp add: advance_def onSeekRangeUpdate_timeShiftBufferDepth)

lemmas advance_window = advance_seekStartTime advance_seekEndTime advance_timeShiftBufferDepth

lemmas example_defs = DashVideoSource_def loadedSource_def sourceWithWindow_def
  liveManifest_def streamWithStarts_def

subsection \<open>One advance of the window\<close>

text \<open>
  Claim C1. For a window of width \<open>w = end - start \<ge> 0\<close> and \<open>elapsed \<ge> 0\<close>, an
  advance by \<open>elapsed\<close> moves both bounds forward by \<open>elapsed\<close> when
  \<open>w + elapsed\<close> exceeds the time-shift buffer depth, and moves only the end otherwise.
  The witness is the window \<open>[10, 50]\<close> with depth 40: an advance by 5 gives
  \<open>[15, 55]\<close>.
\<close>

theorem advance_shifts:
  assumes "0 \<le> seekEndTime s - seekStartTime s" and "0 \<le> elapsed"
  shows "if seekEndTime s - seekStartTime s + elapsed > timeShiftBufferDepth s
         then seekStartTime (advance elapsed s) = seekStartTime s + elapsed \<and>
              seekEndTime (advance elapsed s) = seekEndTime s + elapsed
         else seekStartTime (advance elapsed s) = seekStartTime s \<and>
              seekEndTime (advance elapsed s) = seekEndTime s + elapsed"
  by (simp add: advance_window)

theorem advance_shifts_witness:
  "seekStartTime (sourceWithWindow 10 50) = 10 \<and>
   seekEndTime (sourceWithWindow 10 50) = 50 \<and>
   timeShiftBufferDepth (sourceWithWindow 10 50) = 40 \<and>
   seekStartTime (advance 5 (sourceWithWindow 10 50)) = 15 \<and>
   seekEndTime (advance 5 (sourceWithWindow 10 50)) = 55"
  using advance_shifts [of "sourceWithWindow 10 50" 5] by (simp add: example_defs)

subsection \<open>The live window over time\<close>

lemma onStartStreams_live:
  assumes "manifestInfo s = Some mi" and "live mi"
    and "onStartStreams (Some sl) s = Inr s0"
  shows "seekStartTime s0 = max (limits_end sl - timeShiftBufferDepth s) (limits_start sl)"
    and "seekEndTime s0 = limits_end sl"
    and "timeShiftBufferDepth s0 = timeShiftBufferDepth s"
  using assms
  by (auto simp add: onStartStreams_def setTargetUpdateTime_def Let_def
      fireSeekRangeChangedEvent_def setSeekRangeUpdateTimer_def setTimeout_def)

lemma advances_invariant:
  assumes "\<forall>e \<in> set es. 0 \<le> e"
    and "seekStartTime s \<le> seekEndTime s"
    and "seekEndTime s - seekStartTime s \<le> timeShiftBufferDepth s"
  shows "seekStartTime (advances es s) \<le> seekEndTime (advances es s) \<and>
         seekEndTime (advances es s) - seekStartTime (advances es s) \<le> timeShiftBufferDepth s \<and>
         timeShiftBufferDepth (advances es s) = timeShiftBufferDepth s"
  using assms
proof (induction es arbitrary: s)
  case Nil
  then show ?case by simp
next
  case (Cons e es)
  have e: "0 \<le> e" and es: "\<forall>x \<in> set es. 0 \<le> x"
    using Cons.prems(1) by simp_all
  have a: "seekStartTime (advance e s) \<le> seekEndTime (advance e s)"
    using Cons.prems(2) e by (simp add: advance_window)
  have b: "seekEndTime (advance e s) - seekStartTime (advance e s)
             \<le> timeShiftBufferDepth (advance e s)"
    using Cons.prems(3) e by (simp add: advance_window)
  show ?case
    using Cons.IH [OF es a b] by (simp add: advance_timeShiftBufferDepth)
qed

text \<open>The invariants of the live window in exact arithmetic.\<close>

lemma live_window_exact:
  assumes "manifestInfo s = Some mi" and "live mi"
    and "limits_start sl \<le> limits_end sl"
    and "0 \<le> timeShiftBufferDepth s"
    and "onStartStreams (Some sl) s = Inr s0"
    and "\<forall>x \<in> set es. 0 \<le> x" and "0 \<le> e"
    and "s1 = advances es s0" and "s2 = advance e s1"
  shows "seekStartTime s0 = max (limits_end sl - timeShiftBufferDepth s) (limits_start sl) \<and>
         seekEndTime s0 = limits_end sl \<and>
         seekStartTime s1 \<le> seekEndTime s1 \<and>
         seekStartTime s1 \<le> seekStartTime s2 \<and>
         seekEndTime s1 \<le> seekEndTime s2 \<and>
         seekEndTime s1 - seekStartTime s1 \<le> seekEndTime s2 - seekStartTime s2 \<and>
         seekEndTime s1 - seekStartTime s1 \<le> timeShiftBufferDepth s \<and>
         seekEndTime s2 - seekStartTime s2 \<le> timeShiftBufferDepth s \<and>
         (if seekEndTime s1 - seekStartTime s1 = timeShiftBufferDepth s
          then seekEndTime s2 - seekStartTime s2 = timeShiftBufferDepth s
          else seekEndTime s2 - seekStartTime s2 \<le> timeShiftBufferDepth s) \<and>
         timeShiftBufferDepth s1 = timeShiftBufferDepth s \<and>
         timeShiftBufferDepth s2 = timeShiftBufferDepth s"
proof -
  note init = onStartStreams_live [OF assms(1,2,5)]
  have a: "seekStartTime s0 \<le> seekEndTime s0"
    using assms(3,4) by (simp add: init)
  have b: "seekEndTime s0 - seekStartTime s0 \<le> timeShiftBufferDepth s0"
    using assms(3,4) by (simp add: init)
  have inv: "seekStartTime s1 \<le> seekEndTime s1 \<and>
             seekEndTime s1 - seekStartTime s1 \<le> timeShiftBufferDepth s0 \<and>
             timeShiftBufferDepth s1 = timeShiftBufferDepth s0"
    unfolding assms(8) by (rule advances_invariant [OF assms(6) a b])
  have d1: "timeShiftBufferDepth s1 = timeShiftBufferDepth s"
    using inv by (simp add: init)
  have w1: "seekEndTime s1 - seekStartTime s1 \<le> timeShiftBufferDepth s"
    using inv by (simp add: init)
  have o1: "seekStartTime s1 \<le> seekEndTime s1"
    using inv by simp
  have st: "seekStartTime s1 \<le> seekStartTime s2"
    using assms(7) by (simp add: assms(9) advance_window)
  have en: "seekEndTime s1 \<le> seekEndTime s2"
    using assms(7) by (simp add: assms(9) advance_window)
  have gr: "seekEndTime s1 - seekStartTime s1 \<le> seekEndTime s2 - seekStartTime s2"
    using assms(7) by (simp add: assms(9) advance_window)
  have w2: "seekEndTime s2 - seekStartTime s2 \<le> timeShiftBufferDepth s"
    using assms(7) w1 d1 by (simp add: assms(9) advance_window)
  have d2: "timeShiftBufferDepth s2 = timeShiftBufferDepth s"
    using d1 by (simp add: assms(9) advance_window)
  have keep: "if seekEndTime s1 - seekStartTime s1 = timeShiftBufferDepth s
          then seekEndTime s2 - seekStartTime s2 = timeShiftBufferDepth s
          else seekEndTime s2 - seekStartTime s2 \<le> timeShiftBufferDepth s"
    using gr w2 by simp
  show ?thesis
    using init(1,2) o1 st en gr w1 w2 keep d1 d2 by simp
qed

subsection \<open>Rounding to doubles\<close>

lemma binary64_pos:
  assumes "2 ^ k \<le> x" and "x < 2 ^ Suc k" and "k \<le> 52"
  shows "binary64 x = of_int (roundHalfEven (x * 2 ^ (52 - k))) / 2 ^ (52 - k)"
proof -
  have "(0::real) < 2 ^ k"
    by simp
  with assms(1) have pos: "0 < x"
    by linarith
  have "\<lfloor>log 2 x\<rfloor> = int k"
    using pos assms(1,2)
    by (subst floor_log_eq_powr_iff) (simp_all add: powr_realpow powr_add)
  moreover have "2 powr (of_int (int k) - 52) = 1 / (2::real) ^ (52 - k)"
  proof -
    have "(of_int (int k) - 52 :: real) = - real (52 - k)"
      using assms(3) by simp
    then show ?thesis
      by (simp only: powr_minus_divide powr_realpow) 
  qed
  ultimately show ?thesis
    using pos by (simp add: binary64_def Let_def)
qed

lemma roundHalfEven_of_int: "roundHalfEven (of_int n) = n"
  by (simp add: roundHalfEven_def)

lemma roundHalfEven_cases:
  "roundHalfEven q = \<lfloor>q\<rfloor> \<or> roundHalfEven q = \<lfloor>q\<rfloor> + 1"
  by (simp add: roundHalfEven_def Let_def)

lemma roundHalfEven_mono:
  assumes "q \<le> r"
  shows "roundHalfEven q \<le> roundHalfEven r"
proof (cases "\<lfloor>q\<rfloor> < \<lfloor>r\<rfloor>")
  case True
  have "roundHalfEven q \<le> \<lfloor>q\<rfloor> + 1"
    using roundHalfEven_cases [of q] by auto
  moreover have "\<lfloor>r\<rfloor> \<le> roundHalfEven r"
    using roundHalfEven_cases [of r] by auto
  ultimately show ?thesis
    using True by simp
next
  case False
  then have eq: "\<lfloor>q\<rfloor> = \<lfloor>r\<rfloor>"
    using floor_mono [OF assms] by simp
  then have "q - of_int \<lfloor>r\<rfloor> \<le> r - of_int \<lfloor>r\<rfloor>"
    using assms by simp
  then show ?thesis
    by (auto simp add: roundHalfEven_def Let_def eq)
qed

lemma roundHalfEven_lower: "of_int a \<le> q \<Longrightarrow> a \<le> roundHalfEven q"
  using roundHalfEven_mono [of "of_int a" q] by (simp add: roundHalfEven_of_int)

lemma roundHalfEven_upper: "q \<le> of_int b \<Longrightarrow> roundHalfEven q \<le> b"
  using roundHalfEven_mono [of q "of_int b"] by (simp add: roundHalfEven_of_int)

lemma powr_shift: "(2::real) powr a * 2 powr (e - a) = 2 powr e"
  by (simp add: powr_add [symmetric])

lemma powr_shift_next: "(2::real) powr (a + 1) * 2 powr (e - a) = 2 powr (e + 1)"
  by (simp add: powr_add [symmetric] add.commute)

text \<open>A positive number, its binade and its unit in the last place.\<close>

lemma binade:
  assumes "0 < x"
  shows "2 powr of_int \<lfloor>log 2 x\<rfloor> \<le> x" and "x < 2 powr (of_int \<lfloor>log 2 x\<rfloor> + 1)"
  using floor_log_eq_powr_iff [of x 2 "\<lfloor>log 2 x\<rfloor>"] assms by simp_all

lemma binary64_positive:
  assumes "0 < x"
  shows "binary64 x =
     of_int (roundHalfEven (x / 2 powr (of_int \<lfloor>log 2 x\<rfloor> - 52)))
       * 2 powr (of_int \<lfloor>log 2 x\<rfloor> - 52)"
  using assms by (simp add: binary64_def Let_def)

lemma significand_bounds:
  assumes "0 < x"
  shows "2 ^ 52 \<le> roundHalfEven (x / 2 powr (of_int \<lfloor>log 2 x\<rfloor> - 52))"
    and "roundHalfEven (x / 2 powr (of_int \<lfloor>log 2 x\<rfloor> - 52)) \<le> 2 ^ 53"
proof -
  let ?e = "of_int \<lfloor>log 2 x\<rfloor> :: real"
  have u: "0 < 2 powr (?e - 52)" by simp
  have lo: "2 powr 52 * 2 powr (?e - 52) = 2 powr ?e"
    by (rule powr_shift)
  have hi: "2 powr 53 * 2 powr (?e - 52) = 2 powr (?e + 1)"
    using powr_shift_next [of 52 ?e] by simp
  have "2 powr 52 \<le> x / 2 powr (?e - 52)"
    using binade(1) [OF assms] lo u by (simp add: pos_le_divide_eq)
  then have "of_int (2 ^ 52) \<le> x / 2 powr (?e - 52)"
    by simp
  then show "2 ^ 52 \<le> roundHalfEven (x / 2 powr (?e - 52))"
    by (rule roundHalfEven_lower)
  have "x / 2 powr (?e - 52) \<le> 2 powr 53"
    using binade(2) [OF assms] hi u by (simp add: pos_divide_le_eq)
  then have "x / 2 powr (?e - 52) \<le> of_int (2 ^ 53)"
    by simp
  then show "roundHalfEven (x / 2 powr (?e - 52)) \<le> 2 ^ 53"
    by (rule roundHalfEven_upper)
qed

lemma binary64_in_binade:
  assumes "0 < x"
  shows "2 powr of_int \<lfloor>log 2 x\<rfloor> \<le> binary64 x"
    and "binary64 x \<le> 2 powr (of_int \<lfloor>log 2 x\<rfloor> + 1)"
proof -
  let ?e = "of_int \<lfloor>log 2 x\<rfloor> :: real"
  let ?m = "roundHalfEven (x / 2 powr (?e - 52))"
  have u: "0 < 2 powr (?e - 52)" by simp
  have lo: "2 powr 52 * 2 powr (?e - 52) = 2 powr ?e"
    by (rule powr_shift)
  have hi: "2 powr 53 * 2 powr (?e - 52) = 2 powr (?e + 1)"
    using powr_shift_next [of 52 ?e] by simp
  have "(2 ^ 52 :: real) \<le> of_int ?m"
    using significand_bounds(1) [OF assms] by (metis of_int_le_iff of_int_numeral of_int_power)
  then have "2 powr 52 * 2 powr (?e - 52) \<le> of_int ?m * 2 powr (?e - 52)"
    using u by simp
  then show "2 powr ?e \<le> binary64 x"
    by (simp only: lo binary64_positive [OF assms])
  have "of_int ?m \<le> (2 ^ 53 :: real)"
    using significand_bounds(2) [OF assms] by (metis of_int_le_iff of_int_numeral of_int_power)
  then have "of_int ?m * 2 powr (?e - 52) \<le> 2 powr 53 * 2 powr (?e - 52)"
    using u by simp
  then show "binary64 x \<le> 2 powr (?e + 1)"
    by (simp only: hi binary64_positive [OF assms])
qed

lemma binary64_mono_positive:
  assumes "0 < x" and "x \<le> y"
  shows "binary64 x \<le> binary64 y"
proof -
  have y: "0 < y" using assms by simp
  have le: "\<lfloor>log 2 x\<rfloor> \<le> \<lfloor>log 2 y\<rfloor>"
    using assms by (intro floor_mono) simp
  show ?thesis
  proof (cases "\<lfloor>log 2 x\<rfloor> = \<lfloor>log 2 y\<rfloor>")
    case True
    let ?u = "2 powr (of_int \<lfloor>log 2 y\<rfloor> - 52) :: real"
    have "x / ?u \<le> y / ?u"
      using assms(2) by (simp add: divide_right_mono)
    then have "roundHalfEven (x / ?u) \<le> roundHalfEven (y / ?u)"
      by (rule roundHalfEven_mono)
    then have "of_int (roundHalfEven (x / ?u)) * ?u \<le> of_int (roundHalfEven (y / ?u)) * ?u"
      by (simp add: mult_right_mono)
    then show ?thesis
      by (simp only: binary64_positive [OF assms(1)] binary64_positive [OF y] True)
  next
    case False
    with le have "\<lfloor>log 2 x\<rfloor> + 1 \<le> \<lfloor>log 2 y\<rfloor>" by simp
    then have "(of_int \<lfloor>log 2 x\<rfloor> + 1 :: real) \<le> of_int \<lfloor>log 2 y\<rfloor>"
      by (metis of_int_1 of_int_add of_int_le_iff)
    then have "(2::real) powr (of_int \<lfloor>log 2 x\<rfloor> + 1) \<le> 2 powr of_int \<lfloor>log 2 y\<rfloor>"
      by (intro powr_mono) simp_all
    with binary64_in_binade(2) [OF assms(1)] binary64_in_binade(1) [OF y]
    show ?thesis by linarith
  qed
qed

lemma binary64_minus: "binary64 (- x) = - binary64 x"
  by (simp add: binary64_def Let_def sgn_minus)

lemma binary64_zero: "binary64 0 = 0"
  by (simp add: binary64_def)

lemma binary64_positive_result: "0 < x \<Longrightarrow> 0 < binary64 x"
  using binary64_in_binade(1) [of x] powr_gt_zero [of 2 "of_int \<lfloor>log 2 x\<rfloor>"]
  by linarith

lemma binary64_mono:
  assumes "x \<le> y"
  shows "binary64 x \<le> binary64 y"
proof -
  consider "0 < x" | "x = 0" "0 < y" | "x = 0" "y = 0" | "x < 0" "0 < y" | "x < 0" "y = 0"
    | "x < 0" "y < 0"
    using assms by linarith
  then show ?thesis
  proof cases
    case 1
    then show ?thesis using assms by (rule binary64_mono_positive)
  next
    case 2
    then show ?thesis using binary64_positive_result [of y] by (simp add: binary64_zero)
  next
    case 3
    then show ?thesis by simp
  next
    case 4
    then show ?thesis
      using binary64_positive_result [of y] binary64_positive_result [of "- x"]
      by (simp add: binary64_minus)
  next
    case 5
    then show ?thesis
      using binary64_positive_result [of "- x"] by (simp add: binary64_minus binary64_zero)
  next
    case 6
    then have "binary64 (- y) \<le> binary64 (- x)"
      using assms by (intro binary64_mono_positive) simp_all
    then show ?thesis by (simp add: binary64_minus)
  qed
qed

lemma binary64_representable:
  assumes "2 ^ 52 \<le> m" and "m < 2 ^ 53"
  shows "binary64 (of_int m * 2 powr (of_int k - 52)) = of_int m * 2 powr (of_int k - 52)"
proof -
  let ?u = "2 powr (of_int k - 52) :: real"
  let ?v = "of_int m * ?u"
  have u: "0 < ?u" by simp
  have m1: "(2 ^ 52 :: real) \<le> of_int m"
    using assms(1) by (metis of_int_le_iff of_int_numeral of_int_power)
  have m2: "of_int m < (2 ^ 53 :: real)"
    using assms(2) by (metis of_int_less_iff of_int_numeral of_int_power)
  have pos: "0 < ?v"
    using m1 u by (simp add: zero_less_mult_iff)
  have lo: "2 powr 52 * ?u = 2 powr of_int k"
    by (rule powr_shift)
  have hi: "2 powr 53 * ?u = 2 powr (of_int k + 1)"
    using powr_shift_next [of 52 "of_int k"] by simp
  have "2 powr 52 * ?u \<le> ?v"
    using m1 u by simp
  then have a: "2 powr of_int k \<le> ?v"
    by (simp only: lo)
  have "?v < 2 powr 53 * ?u"
    using m2 u by simp
  then have b: "?v < 2 powr (of_int k + 1)"
    by (simp only: hi)
  have e: "\<lfloor>log 2 ?v\<rfloor> = k"
    using pos a b by (subst floor_log_eq_powr_iff) simp_all
  have "?v / ?u = of_int m"
    using u by simp
  then show ?thesis
    by (simp only: binary64_positive [OF pos] e roundHalfEven_of_int)
qed

lemma binary64_idem_positive:
  assumes "0 < x"
  shows "binary64 (binary64 x) = binary64 x"
proof -
  let ?k = "\<lfloor>log 2 x\<rfloor>"
  let ?m = "roundHalfEven (x / 2 powr (of_int ?k - 52))"
  show ?thesis
  proof (cases "?m < 2 ^ 53")
    case True
    show ?thesis
      using binary64_representable [OF significand_bounds(1) [OF assms] True, of ?k]
      by (simp only: binary64_positive [OF assms])
  next
    case False
    then have m: "?m = 2 ^ 53"
      using significand_bounds(2) [OF assms] by simp
    have "(2 ^ 53 :: real) * 2 powr (of_int ?k - 52) = 2 ^ 52 * 2 powr (of_int (?k + 1) - 52)"
      by (simp add: powr_add [symmetric] powr_diff)
    then have v: "binary64 x = of_int (2 ^ 52) * 2 powr (of_int (?k + 1) - 52)"
      by (simp add: binary64_positive [OF assms] m)
    show ?thesis
      unfolding v by (rule binary64_representable) simp_all
  qed
qed

lemma binary64_idem: "binary64 (binary64 x) = binary64 x"
proof -
  consider "0 < x" | "x = 0" | "x < 0" by linarith
  then show ?thesis
  proof cases
    case 1
    then show ?thesis by (rule binary64_idem_positive)
  next
    case 2
    then show ?thesis by (simp add: binary64_zero)
  next
    case 3
    then have "binary64 (binary64 (- x)) = binary64 (- x)"
      by (intro binary64_idem_positive) simp
    then show ?thesis by (simp add: binary64_minus)
  qed
qed

subsection \<open>Three advances in doubles\<close>

lemma binary64_offset: "binary64 (1002 / 1000) = 4512606826625237 / 2 ^ 52"
  by (subst binary64_pos [where k = 0]) (simp_all add: roundHalfEven_def)

lemma binary64_10: "binary64 (10) = 10"
  by (subst binary64_pos [where k = 3]) (simp_all add: roundHalfEven_def)

lemma binary64_sum: "binary64 (40 + 4512606826625237 / 2 ^ 52) = 5770518497545159 / 2 ^ 47"
  by (subst binary64_pos [where k = 5]) (simp_all add: roundHalfEven_def)

lemma binary64_width_0: "binary64 (50 - 10) = 40"
  by (subst binary64_pos [where k = 5]) (simp_all add: roundHalfEven_def)

lemma binary64_start_1: "binary64 (10 + 4512606826625237 / 2 ^ 52) = 6193575387541275 / 2 ^ 49"
  by (subst binary64_pos [where k = 3]) (simp_all add: roundHalfEven_def)

lemma binary64_end_1: "binary64 (50 + 4512606826625237 / 2 ^ 52) = 7177893381098439 / 2 ^ 47"
  by (subst binary64_pos [where k = 5]) (simp_all add: roundHalfEven_def)

lemma binary64_width_1: "binary64 (7177893381098439 / 2 ^ 47 - 6193575387541275 / 2 ^ 49) = 40"
  by (subst binary64_pos [where k = 5]) (simp_all add: roundHalfEven_def)

lemma binary64_start_2: "binary64 (6193575387541275 / 2 ^ 49 + 4512606826625237 / 2 ^ 52) = 3378825620434715 / 2 ^ 48"
  by (subst binary64_pos [where k = 3]) (simp_all add: roundHalfEven_def)

lemma binary64_end_2: "binary64 (7177893381098439 / 2 ^ 47 + 4512606826625237 / 2 ^ 52) = 3659456172215239 / 2 ^ 46"
  by (subst binary64_pos [where k = 5]) (simp_all add: roundHalfEven_def)

lemma binary64_width_2: "binary64 (3659456172215239 / 2 ^ 46 - 3378825620434715 / 2 ^ 48) = 40"
  by (subst binary64_pos [where k = 5]) (simp_all add: roundHalfEven_def)

lemma binary64_start_3: "binary64 (3378825620434715 / 2 ^ 48 + 4512606826625237 / 2 ^ 52) = 7321727094197585 / 2 ^ 49"
  by (subst binary64_pos [where k = 3]) (simp_all add: roundHalfEven_def)

lemma binary64_end_3: "binary64 (3659456172215239 / 2 ^ 46 + 4512606826625237 / 2 ^ 52) = 7459931307762517 / 2 ^ 47"
  by (subst binary64_pos [where k = 5]) (simp_all add: roundHalfEven_def)

lemma binary64_width_3: "binary64 (7459931307762517 / 2 ^ 47 - 7321727094197585 / 2 ^ 49) = 5629499534213121 / 2 ^ 47"
  by (subst binary64_pos [where k = 5]) (simp_all add: roundHalfEven_def)

lemma sum_exceeds_depth: "(40::real) < 5770518497545159 / 2 ^ 47"
  by simp

lemma rounded_step_1:
  "advanceWindow binary64 40 (4512606826625237 / 2 ^ 52) (10, 50)
     = (6193575387541275 / 2 ^ 49, 7177893381098439 / 2 ^ 47)"
  by (simp only: advanceWindow_def Let_def fst_conv snd_conv binary64_width_0 binary64_sum
      sum_exceeds_depth if_True binary64_start_1 binary64_end_1)

lemma rounded_step_2:
  "advanceWindow binary64 40 (4512606826625237 / 2 ^ 52) (6193575387541275 / 2 ^ 49, 7177893381098439 / 2 ^ 47)
     = (3378825620434715 / 2 ^ 48, 3659456172215239 / 2 ^ 46)"
  by (simp only: advanceWindow_def Let_def fst_conv snd_conv binary64_width_1 binary64_sum
      sum_exceeds_depth if_True binary64_start_2 binary64_end_2)

lemma rounded_step_3:
  "advanceWindow binary64 40 (4512606826625237 / 2 ^ 52) (3378825620434715 / 2 ^ 48, 3659456172215239 / 2 ^ 46)
     = (7321727094197585 / 2 ^ 49, 7459931307762517 / 2 ^ 47)"
  by (simp only: advanceWindow_def Let_def fst_conv snd_conv binary64_width_2 binary64_sum
      sum_exceeds_depth if_True binary64_start_3 binary64_end_3)

lemma rounded_initial:
  "initialWindow binary64 40 \<lparr>limits_start = 0, limits_end = 50\<rparr> = (10, 50)"
  by (simp add: initialWindow_def binary64_10)

lemma roundedExample_value:
  "roundedExample = (7321727094197585 / 2 ^ 49, 7459931307762517 / 2 ^ 47)"
  by (simp only: roundedExample_def binary64_offset rounded_initial advancesWindow.simps
      rounded_step_1 rounded_step_2 rounded_step_3)

text \<open>
  In doubles the width does exceed the depth: after the third advance of the example the
  window is about \<open>(13.006000000000002, 53.00600000000001)\<close>, and its width, as the exact
  difference of the bounds and as the double the source computes for it, is above 40.
\<close>

theorem rounded_width_counterexample:
  "roundedExample = (7321727094197585 / 2 ^ 49, 7459931307762517 / 2 ^ 47) \<and>
   \<not> (snd roundedExample - fst roundedExample \<le> 40) \<and>
   \<not> (binary64 (snd roundedExample - fst roundedExample) \<le> 40)"
proof -
  have w: "binary64 (snd roundedExample - fst roundedExample) = 5629499534213121 / 2 ^ 47"
    by (simp only: roundedExample_value fst_conv snd_conv binary64_width_3)
  have "\<not> (snd roundedExample - fst roundedExample \<le> 40)"
    by (simp add: roundedExample_value)
  moreover have "\<not> (binary64 (snd roundedExample - fst roundedExample) \<le> 40)"
    unfolding w by simp
  ultimately show ?thesis
    using roundedExample_value by simp
qed

subsection \<open>The window in rounded arithmetic\<close>

lemma advance_advanceWindow:
  "(seekStartTime (advance e s), seekEndTime (advance e s)) =
     advanceWindow (\<lambda>x. x) (timeShiftBufferDepth s) e (seekStartTime s, seekEndTime s)"
  by (simp add: advanceWindow_def advance_window)

lemma onStartStreams_initialWindow:
  assumes "manifestInfo s = Some mi" and "live mi"
    and "onStartStreams (Some sl) s = Inr s0"
  shows "(seekStartTime s0, seekEndTime s0) = initialWindow (\<lambda>x. x) (timeShiftBufferDepth s) sl"
  using onStartStreams_live [OF assms] by (simp add: initialWindow_def)

lemma advanceWindow_rounded:
  assumes mono: "\<And>x y. x \<le> y \<Longrightarrow> rnd x \<le> rnd y"
    and idem: "\<And>x. rnd (rnd x) = rnd x"
    and rep: "rnd (fst w) = fst w" "rnd (snd w) = snd w"
    and ord: "fst w \<le> snd w" and off: "0 \<le> offset"
  shows "fst (advanceWindow rnd depth offset w) \<le> snd (advanceWindow rnd depth offset w)"
    and "fst w \<le> fst (advanceWindow rnd depth offset w)"
    and "snd w \<le> snd (advanceWindow rnd depth offset w)"
    and "rnd (fst (advanceWindow rnd depth offset w)) = fst (advanceWindow rnd depth offset w)"
    and "rnd (snd (advanceWindow rnd depth offset w)) = snd (advanceWindow rnd depth offset w)"
proof -
  have a: "fst w \<le> rnd (fst w + offset)"
    using mono [of "fst w" "fst w + offset"] off rep(1) by simp
  have b: "snd w \<le> rnd (snd w + offset)"
    using mono [of "snd w" "snd w + offset"] off rep(2) by simp
  have c: "rnd (fst w + offset) \<le> rnd (snd w + offset)"
    using mono [of "fst w + offset" "snd w + offset"] ord by simp
  have d: "fst w \<le> rnd (snd w + offset)"
    using ord b by simp
  show "fst (advanceWindow rnd depth offset w) \<le> snd (advanceWindow rnd depth offset w)"
    using c d by (simp add: advanceWindow_def Let_def)
  show "fst w \<le> fst (advanceWindow rnd depth offset w)"
    using a by (simp add: advanceWindow_def Let_def)
  show "snd w \<le> snd (advanceWindow rnd depth offset w)"
    using b by (simp add: advanceWindow_def Let_def)
  show "rnd (fst (advanceWindow rnd depth offset w)) = fst (advanceWindow rnd depth offset w)"
    using idem rep(1) by (simp add: advanceWindow_def Let_def)
  show "rnd (snd (advanceWindow rnd depth offset w)) = snd (advanceWindow rnd depth offset w)"
    using idem by (simp add: advanceWindow_def Let_def)
qed

lemma advancesWindow_rounded:
  assumes mono: "\<And>x y. x \<le> y \<Longrightarrow> rnd x \<le> rnd y"
    and idem: "\<And>x. rnd (rnd x) = rnd x"
    and "rnd (fst w) = fst w" and "rnd (snd w) = snd w"
    and "fst w \<le> snd w" and "\<forall>x \<in> set offsets. 0 \<le> x"
  shows "rnd (fst (advancesWindow rnd depth offsets w)) = fst (advancesWindow rnd depth offsets w) \<and>
         rnd (snd (advancesWindow rnd depth offsets w)) = snd (advancesWindow rnd depth offsets w) \<and>
         fst (advancesWindow rnd depth offsets w) \<le> snd (advancesWindow rnd depth offsets w)"
  using assms(3-6)
proof (induction offsets arbitrary: w)
  case Nil
  then show ?case by simp
next
  case (Cons offset offsets)
  have off: "0 \<le> offset" and rest: "\<forall>x \<in> set offsets. 0 \<le> x"
    using Cons.prems(4) by simp_all
  note step = advanceWindow_rounded [of rnd w offset depth, OF mono idem Cons.prems(1,2,3) off]
  show ?case
    using Cons.IH [OF step(4) step(5) step(1) rest] by simp
qed

lemma initialWindow_rounded:
  assumes mono: "\<And>x y. x \<le> y \<Longrightarrow> rnd x \<le> rnd y"
    and idem: "\<And>x. rnd (rnd x) = rnd x"
    and "rnd (limits_start sl) = limits_start sl" and "rnd (limits_end sl) = limits_end sl"
    and "limits_start sl \<le> limits_end sl" and "0 \<le> depth"
  shows "rnd (fst (initialWindow rnd depth sl)) = fst (initialWindow rnd depth sl)"
    and "rnd (snd (initialWindow rnd depth sl)) = snd (initialWindow rnd depth sl)"
    and "fst (initialWindow rnd depth sl) \<le> snd (initialWindow rnd depth sl)"
proof -
  have "rnd (limits_end sl - depth) \<le> limits_end sl"
    using mono [of "limits_end sl - depth" "limits_end sl"] assms(4,6) by simp
  then show "fst (initialWindow rnd depth sl) \<le> snd (initialWindow rnd depth sl)"
    using assms(5) by (simp add: initialWindow_def)
  show "rnd (fst (initialWindow rnd depth sl)) = fst (initialWindow rnd depth sl)"
    using idem assms(3) by (simp add: initialWindow_def max_def)
  show "rnd (snd (initialWindow rnd depth sl)) = snd (initialWindow rnd depth sl)"
    using assms(4) by (simp add: initialWindow_def)
qed

text \<open>
  Claim C2, amended. A live window is initialised to
  \<open>start = max (streamsEnd - depth) streamsStart\<close> and \<open>end = streamsEnd\<close>, for stream
  limits with \<open>streamsStart \<le> streamsEnd\<close> and a depth that is not negative, and advanced
  by any sequence of elapsed times that are not negative. In the doubles the source
  computes with (the windows \<open>w1\<close> and its successor \<open>w2\<close>), the end is never below the
  start and neither bound ever decreases. The bounds on the width hold up to the rounding
  of the doubles: in exact arithmetic (the states \<open>s1\<close> and its successor \<open>s2\<close>) the
  width does not decrease, never exceeds the depth, and stays equal to the depth once it
  has reached it.
\<close>

theorem live_window_rounded_and_exact:
  assumes "manifestInfo s = Some mi" and "live mi"
    and "limits_start sl \<le> limits_end sl"
    and "0 \<le> timeShiftBufferDepth s"
    and "\<forall>x \<in> set es. 0 \<le> x" and "0 \<le> e"
    and "binary64 (limits_start sl) = limits_start sl"
    and "binary64 (limits_end sl) = limits_end sl"
    and "w1 = advancesWindow binary64 (timeShiftBufferDepth s) es
                (initialWindow binary64 (timeShiftBufferDepth s) sl)"
    and "w2 = advanceWindow binary64 (timeShiftBufferDepth s) e w1"
    and "onStartStreams (Some sl) s = Inr s0"
    and "s1 = advances es s0" and "s2 = advance e s1"
  shows "fst w1 \<le> snd w1 \<and> fst w2 \<le> snd w2 \<and>
         fst w1 \<le> fst w2 \<and> snd w1 \<le> snd w2 \<and>
         seekStartTime s0 = max (limits_end sl - timeShiftBufferDepth s) (limits_start sl) \<and>
         seekEndTime s0 = limits_end sl \<and>
         seekStartTime s1 \<le> seekEndTime s1 \<and>
         seekStartTime s1 \<le> seekStartTime s2 \<and>
         seekEndTime s1 \<le> seekEndTime s2 \<and>
         seekEndTime s1 - seekStartTime s1 \<le> seekEndTime s2 - seekStartTime s2 \<and>
         seekEndTime s1 - seekStartTime s1 \<le> timeShiftBufferDepth s \<and>
         seekEndTime s2 - seekStartTime s2 \<le> timeShiftBufferDepth s \<and>
         (if seekEndTime s1 - seekStartTime s1 = timeShiftBufferDepth s
          then seekEndTime s2 - seekStartTime s2 = timeShiftBufferDepth s
          else seekEndTime s2 - seekStartTime s2 \<le> timeShiftBufferDepth s) \<and>
         timeShiftBufferDepth s1 = timeShiftBufferDepth s \<and>
         timeShiftBufferDepth s2 = timeShiftBufferDepth s"
proof -
  note init = initialWindow_rounded [of binary64 sl "timeShiftBufferDepth s",
      OF binary64_mono binary64_idem assms(7,8,3,4)]
  have inv: "binary64 (fst w1) = fst w1 \<and> binary64 (snd w1) = snd w1 \<and> fst w1 \<le> snd w1"
    unfolding assms(9)
    by (rule advancesWindow_rounded [OF binary64_mono binary64_idem init assms(5)])
  have r1: "binary64 (fst w1) = fst w1" and r2: "binary64 (snd w1) = snd w1"
    and o1: "fst w1 \<le> snd w1"
    using inv by simp_all
  note step = advanceWindow_rounded [of binary64 w1 e "timeShiftBufferDepth s",
      OF binary64_mono binary64_idem r1 r2 o1 assms(6)]
  have rounded: "fst w1 \<le> snd w1 \<and> fst w2 \<le> snd w2 \<and> fst w1 \<le> fst w2 \<and> snd w1 \<le> snd w2"
    using o1 step(1,2,3) by (simp add: assms(10))
  show ?thesis
    using rounded live_window_exact [OF assms(1,2,3,4,11,5,6,12,13)] by simp
qed

theorem live_window_rounded_and_exact_witness:
  "onStartStreams (Some \<lparr>limits_start = 0, limits_end = 50\<rparr>) (loadedSource [])
     = Inr startedSource \<and>
   binary64 50 = 50 \<and>
   advancesWindow binary64 40 [binary64 (1002 / 1000), binary64 (1002 / 1000)]
       (initialWindow binary64 40 \<lparr>limits_start = 0, limits_end = 50\<rparr>)
     = (3378825620434715 / 2 ^ 48, 3659456172215239 / 2 ^ 46) \<and>
   advanceWindow binary64 40 (binary64 (1002 / 1000))
       (3378825620434715 / 2 ^ 48, 3659456172215239 / 2 ^ 46)
     = roundedExample \<and>
   fst roundedExample \<le> snd roundedExample \<and>
   3378825620434715 / 2 ^ 48 \<le> fst roundedExample \<and>
   3659456172215239 / 2 ^ 46 \<le> snd roundedExample \<and>
   seekEndTime (advances [binary64 (1002 / 1000), binary64 (1002 / 1000)] startedSource)
     - seekStartTime (advances [binary64 (1002 / 1000), binary64 (1002 / 1000)] startedSource)
     = 40"
proof -
  let ?o = "binary64 (1002 / 1000)"
  let ?sl = "\<lparr>limits_start = 0, limits_end = 50\<rparr>"
  let ?w1 = "advancesWindow binary64 40 [?o, ?o] (initialWindow binary64 40 ?sl)"
  have started: "onStartStreams (Some ?sl) (loadedSource []) = Inr startedSource"
    by (simp add: onStartStreams_def setTargetUpdateTime_def Let_def
        fireSeekRangeChangedEvent_def setSeekRangeUpdateTimer_def setTimeout_def
        startedSource_def example_defs)
  have mi: "manifestInfo (loadedSource []) = Some (liveManifest [])"
    by (simp add: example_defs)
  have lv: "live (liveManifest [])"
    by (simp add: example_defs)
  have le: "limits_start ?sl \<le> limits_end ?sl"
    by simp
  have depth: "timeShiftBufferDepth (loadedSource []) = 40"
    by (simp add: example_defs)
  have pos: "0 \<le> ?o"
    by (simp only: binary64_offset) simp
  have es: "\<forall>x \<in> set [?o, ?o]. 0 \<le> x"
    using pos by simp
  have b50: "binary64 50 = 50"
    by (subst binary64_pos [where k = 5]) (simp_all add: roundHalfEven_def)
  have rep1: "binary64 (limits_start ?sl) = limits_start ?sl"
    by (simp add: binary64_zero)
  have rep2: "binary64 (limits_end ?sl) = limits_end ?sl"
    using b50 by simp
  have w1: "?w1 = (3378825620434715 / 2 ^ 48, 3659456172215239 / 2 ^ 46)"
    by (simp only: binary64_offset rounded_initial advancesWindow.simps
        rounded_step_1 rounded_step_2)
  have w2: "advanceWindow binary64 40 ?o
       (3378825620434715 / 2 ^ 48, 3659456172215239 / 2 ^ 46) = roundedExample"
    by (simp only: roundedExample_value binary64_offset rounded_step_3)
  have "0 \<le> timeShiftBufferDepth (loadedSource [])"
    by (simp add: depth)
  note t = live_window_rounded_and_exact [OF mi lv le this es pos rep1 rep2 refl refl started
      refl refl]
  have ord: "fst roundedExample \<le> snd roundedExample \<and>
      3378825620434715 / 2 ^ 48 \<le> fst roundedExample \<and>
      3659456172215239 / 2 ^ 46 \<le> snd roundedExample"
    using t by (simp only: depth w1 w2 fst_conv snd_conv)
  have slide: "seekEndTime (advances [x, x] startedSource)
     - seekStartTime (advances [x, x] startedSource) = 40" if "0 < x" for x
    using that by (simp add: advance_window startedSource_def example_defs)
  have "0 < ?o"
    by (simp only: binary64_offset) simp
  then have exact: "seekEndTime (advances [?o, ?o] startedSource)
     - seekStartTime (advances [?o, ?o] startedSource) = 40"
    by (rule slide)
  show ?thesis
    using started b50 w1 w2 ord exact by simp
qed

subsection \<open>The target update time\<close>

lemma streamStep_secondLastStart:
  "streamStep mx si = (case secondLastStart si of None \<Rightarrow> mx | Some v \<Rightarrow> max mx v)"
proof (cases "segmentIndex si")
  case None
  then show ?thesis
    by (simp add: streamStep_def secondLastStart_def)
next
  case (Some ix)
  show ?thesis
  proof (cases "ix = []")
    case True
    with Some show ?thesis
      by (simp add: streamStep_def secondLastStart_def getNumReferences_def getReference_def)
  next
    case False
    then have "0 < length ix" by simp
    then have "max 0 (int (length ix) - 2) < int (length ix)" by simp
    with Some False show ?thesis
      by (simp add: streamStep_def secondLastStart_def getNumReferences_def getReference_def
          Let_def)
  qed
qed

lemma map_filter_append:
  "List.map_filter f (xs @ ys) = List.map_filter f xs @ List.map_filter f ys"
  by (simp add: List.map_filter_def)

lemma loopStreams_foldl:
  "loopStreams mx sis = foldl max mx (List.map_filter secondLastStart sis)"
  by (induction sis arbitrary: mx) (simp_all add: streamStep_secondLastStart split: option.split)

lemma loopStreamSets_foldl:
  "loopStreamSets mx sss =
     foldl max mx (List.map_filter secondLastStart (concat (map streamInfos sss)))"
  by (induction sss arbitrary: mx) (simp_all add: loopStreams_foldl map_filter_append)

lemma loopPeriods_foldl:
  "loopPeriods mx ps =
     foldl max mx
       (List.map_filter secondLastStart
          (concat (map streamInfos (concat (map streamSetInfos ps)))))"
  by (induction ps arbitrary: mx) (simp_all add: loopStreamSets_foldl map_filter_append)

lemma foldl_max_Max:
  fixes mx :: real
  shows "xs \<noteq> [] \<Longrightarrow> foldl max mx xs = max mx (Max (set xs))"
proof (induction xs arbitrary: mx)
  case Nil
  then show ?case by simp
next
  case (Cons x xs)
  show ?case
  proof (cases "xs = []")
    case True
    then show ?thesis by simp
  next
    case False
    then have "foldl max (max mx x) xs = max (max mx x) (Max (set xs))"
      by (rule Cons.IH)
    with False show ?thesis
      by (simp add: max.assoc)
  qed
qed

lemma loopPeriods_estimate:
  "(if loopPeriods 0 (periodInfos mi) - 2 \<ge> 0
    then Some (loopPeriods 0 (periodInfos mi) - 2) else None) = estimate_spec mi"
proof (cases "List.map_filter secondLastStart (allStreamInfos mi) = []")
  case True
  then show ?thesis
    by (simp add: loopPeriods_foldl estimate_spec_def allStreamInfos_def)
next
  case False
  then have "loopPeriods 0 (periodInfos mi) =
      max 0 (Max (set (List.map_filter secondLastStart (allStreamInfos mi))))"
    by (simp add: loopPeriods_foldl allStreamInfos_def foldl_max_Max)
  with False show ?thesis
    by (simp add: estimate_spec_def Let_def max_def)
qed

text \<open>
  Claim C3. \<^verbatim>\<open>setTargetUpdateTime_\<close> computes what the specification describes: over
  the streams that have a segment index, the maximum \<open>m\<close> of the start time of the
  reference at index \<open>max 0 (referenceCount - 2)\<close>, and stores \<open>m - 2\<close> if that is not
  negative and \<^verbatim>\<open>null\<close> otherwise. The witness is the snapshot with start times
  \<open>[10, 20, 30]\<close> and \<open>[15, 25]\<close>, whose target is \<open>max 20 15 - 2 = 18\<close>.
\<close>

theorem setTargetUpdateTime_estimate:
  assumes "manifestInfo s = Some mi"
  shows "setTargetUpdateTime s = Inr (s\<lparr>targetUpdateTime := estimate_spec mi\<rparr>)"
  using assms loopPeriods_estimate [of mi]
  by (simp add: setTargetUpdateTime_def Let_def)

theorem setTargetUpdateTime_estimate_witness:
  "manifestInfo (loadedSource [streamWithStarts [10, 20, 30], streamWithStarts [15, 25]])
     = Some (liveManifest [streamWithStarts [10, 20, 30], streamWithStarts [15, 25]]) \<and>
   estimate_spec (liveManifest [streamWithStarts [10, 20, 30], streamWithStarts [15, 25]])
     = Some 18 \<and>
   setTargetUpdateTime (loadedSource [streamWithStarts [10, 20, 30], streamWithStarts [15, 25]])
     = Inr ((loadedSource [streamWithStarts [10, 20, 30], streamWithStarts [15, 25]])
              \<lparr>targetUpdateTime := Some 18\<rparr>)"
proof -
  have mi: "manifestInfo (loadedSource [streamWithStarts [10, 20, 30], streamWithStarts [15, 25]])
     = Some (liveManifest [streamWithStarts [10, 20, 30], streamWithStarts [15, 25]])"
    by (simp add: example_defs)
  have est: "estimate_spec (liveManifest [streamWithStarts [10, 20, 30], streamWithStarts [15, 25]])
     = Some 18"
    by (simp add: estimate_spec_def allStreamInfos_def secondLastStart_def example_defs)
  show ?thesis
    using setTargetUpdateTime_estimate [OF mi] mi est by simp
qed

text \<open>
  A snapshot whose only stream has a single reference, starting at 100: the index
  \<open>max 0 (1 - 2) = 0\<close> reads that reference, and the target is 98, not \<^verbatim>\<open>null\<close>.
\<close>

theorem single_reference_target_counterexample:
  "list_all (\<lambda>si. case segmentIndex si of None \<Rightarrow> True | Some ix \<Rightarrow> length ix \<le> 1)
     (allStreamInfos (liveManifest [streamWithStarts [100]])) \<and>
   manifestInfo (loadedSource [streamWithStarts [100]])
     = Some (liveManifest [streamWithStarts [100]]) \<and>
   setTargetUpdateTime (loadedSource [streamWithStarts [100]])
     = Inr ((loadedSource [streamWithStarts [100]])\<lparr>targetUpdateTime := Some 98\<rparr>)"
  by (simp add: setTargetUpdateTime_def streamStep_def getNumReferences_def getReference_def
      allStreamInfos_def example_defs)

lemma foldl_max_less_iff:
  fixes mx :: real
  shows "foldl max mx xs < b \<longleftrightarrow> mx < b \<and> list_all (\<lambda>v. v < b) xs"
  by (induction xs arbitrary: mx) auto

lemma secondLastStart_at_most_one:
  assumes "case segmentIndex si of None \<Rightarrow> True | Some ix \<Rightarrow> length ix \<le> 1"
  shows "(case secondLastStart si of None \<Rightarrow> True | Some v \<Rightarrow> v < 2) =
         (case segmentIndex si of None \<Rightarrow> True
          | Some ix \<Rightarrow> list_all (\<lambda>r. startTime r < 2) ix)"
proof (cases "segmentIndex si")
  case None
  then show ?thesis by (simp add: secondLastStart_def)
next
  case (Some ix)
  with assms have "length ix \<le> 1" by simp
  with Some show ?thesis
    by (cases ix) (simp_all add: secondLastStart_def)
qed

lemma map_filter_at_most_one:
  assumes "list_all (\<lambda>si. case segmentIndex si of None \<Rightarrow> True | Some ix \<Rightarrow> length ix \<le> 1) sis"
  shows "list_all (\<lambda>v. v < 2) (List.map_filter secondLastStart sis) =
         list_all (\<lambda>si. case segmentIndex si of None \<Rightarrow> True
                        | Some ix \<Rightarrow> list_all (\<lambda>r. startTime r < 2) ix) sis"
  using assms
proof (induction sis)
  case Nil
  then show ?case by simp
next
  case (Cons si sis)
  then have one: "case segmentIndex si of None \<Rightarrow> True | Some ix \<Rightarrow> length ix \<le> 1"
    and rest: "list_all (\<lambda>si. case segmentIndex si of None \<Rightarrow> True | Some ix \<Rightarrow> length ix \<le> 1) sis"
    by simp_all
  show ?case
    using secondLastStart_at_most_one [OF one] Cons.IH [OF rest]
    by (cases "secondLastStart si") simp_all
qed

lemma setTargetUpdateTime_null_iff:
  assumes "manifestInfo s = Some mi"
  shows "(setTargetUpdateTime s = Inr (s\<lparr>targetUpdateTime := None\<rparr>)) =
         (loopPeriods 0 (periodInfos mi) < 2)"
proof (cases "loopPeriods 0 (periodInfos mi) < 2")
  case True
  with assms show ?thesis
    by (simp add: setTargetUpdateTime_def Let_def)
next
  case False
  then have "setTargetUpdateTime s =
      Inr (s\<lparr>targetUpdateTime := Some (loopPeriods 0 (periodInfos mi) - 2)\<rparr>)"
    using assms by (simp add: setTargetUpdateTime_def Let_def)
  moreover have "s\<lparr>targetUpdateTime := Some (loopPeriods 0 (periodInfos mi) - 2)\<rparr>
      \<noteq> s\<lparr>targetUpdateTime := None\<rparr>"
  proof
    assume "s\<lparr>targetUpdateTime := Some (loopPeriods 0 (periodInfos mi) - 2)\<rparr>
      = s\<lparr>targetUpdateTime := None\<rparr>"
    then have "targetUpdateTime (s\<lparr>targetUpdateTime := Some (loopPeriods 0 (periodInfos mi) - 2)\<rparr>)
      = targetUpdateTime (s\<lparr>targetUpdateTime := None\<rparr>)"
      by (rule arg_cong)
    then show False by simp
  qed
  ultimately show ?thesis
    using False by simp
qed

text \<open>
  Claim C4, amended. In a snapshot in which every stream has no or one segment reference,
  \<^verbatim>\<open>setTargetUpdateTime_\<close> stores \<^verbatim>\<open>null\<close> exactly when every such reference
  starts before the latency allowance of 2 seconds: always when no stream has a
  reference, and never when some single reference starts at 2 seconds or later.
\<close>

theorem single_reference_target_null_iff:
  assumes "manifestInfo s = Some mi"
    and "list_all (\<lambda>si. case segmentIndex si of None \<Rightarrow> True | Some ix \<Rightarrow> length ix \<le> 1)
          (allStreamInfos mi)"
  shows "(setTargetUpdateTime s = Inr (s\<lparr>targetUpdateTime := None\<rparr>)) =
         list_all (\<lambda>si. case segmentIndex si of None \<Rightarrow> True
                        | Some ix \<Rightarrow> list_all (\<lambda>r. startTime r < 2) ix)
           (allStreamInfos mi)"
proof -
  have "loopPeriods 0 (periodInfos mi) < 2 \<longleftrightarrow>
        list_all (\<lambda>v. v < 2) (List.map_filter secondLastStart (allStreamInfos mi))"
    by (simp add: loopPeriods_foldl allStreamInfos_def foldl_max_less_iff)
  then show ?thesis
    using setTargetUpdateTime_null_iff [OF assms(1)] map_filter_at_most_one [OF assms(2)]
    by simp
qed

theorem single_reference_target_null_iff_witness:
  "setTargetUpdateTime (loadedSource [streamWithStarts [1], streamWithStarts []])
     = Inr ((loadedSource [streamWithStarts [1], streamWithStarts []])
              \<lparr>targetUpdateTime := None\<rparr>) \<and>
   setTargetUpdateTime (loadedSource [streamWithStarts [1], streamWithStarts [2]])
     \<noteq> Inr ((loadedSource [streamWithStarts [1], streamWithStarts [2]])
              \<lparr>targetUpdateTime := None\<rparr>)"
proof -
  have mi: "manifestInfo (loadedSource sis) = Some (liveManifest sis)" for sis
    by (simp add: example_defs)
  have one: "list_all (\<lambda>si. case segmentIndex si of None \<Rightarrow> True | Some ix \<Rightarrow> length ix \<le> 1)
          (allStreamInfos (liveManifest [streamWithStarts [1], streamWithStarts []]))"
    by (simp add: allStreamInfos_def example_defs)
  have two: "list_all (\<lambda>si. case segmentIndex si of None \<Rightarrow> True | Some ix \<Rightarrow> length ix \<le> 1)
          (allStreamInfos (liveManifest [streamWithStarts [1], streamWithStarts [2]]))"
    by (simp add: allStreamInfos_def example_defs)
  show ?thesis
    using single_reference_target_null_iff [OF mi one]
      single_reference_target_null_iff [OF mi two]
    by (simp add: allStreamInfos_def example_defs)
qed

subsection \<open>Seek validation\<close>

text \<open>
  Claim C5. For a seek window \<open>[start, end]\<close> (so \<open>start \<le> end\<close>) and a requested time
  \<open>t\<close>, the position of the video when \<^verbatim>\<open>onSeeking\<close> runs: if
  \<open>start - 0.01 \<le> t \<le> end + 0.01\<close> the seek is accepted (handed to the base class, the
  position unchanged); if \<open>t < start - 0.01\<close> it is rejected and the position set to
  \<open>start\<close>; if \<open>t > end + 0.01\<close> it is rejected and the position set to \<open>end\<close>.
  Resuming playback (\<^verbatim>\<open>onPlay_\<close>) runs the very same validation.
\<close>

theorem onSeeking_validates:
  assumes "seekStartTime s \<le> seekEndTime s"
  shows "(seekStartTime s - 0.01 \<le> videoCurrentTime s \<and>
          videoCurrentTime s \<le> seekEndTime s + 0.01
            \<longrightarrow> onSeeking s = baseOnSeeking s \<and>
                videoCurrentTime (onSeeking s) = videoCurrentTime s) \<and>
         (videoCurrentTime s < seekStartTime s - 0.01
            \<longrightarrow> onSeeking s = s\<lparr>videoCurrentTime := seekStartTime s\<rparr>) \<and>
         (videoCurrentTime s > seekEndTime s + 0.01
            \<longrightarrow> onSeeking s = s\<lparr>videoCurrentTime := seekEndTime s\<rparr>) \<and>
         onPlay s = onSeeking s"
  using assms by (simp add: onSeeking_def onPlay_def baseOnSeeking_def Let_def)

theorem onSeeking_validates_witness:
  "seekStartTime (sourceWithWindow 10 50) \<le> seekEndTime (sourceWithWindow 10 50) \<and>
   onSeeking ((sourceWithWindow 10 50)\<lparr>videoCurrentTime := 30\<rparr>)
     = baseOnSeeking ((sourceWithWindow 10 50)\<lparr>videoCurrentTime := 30\<rparr>) \<and>
   onSeeking ((sourceWithWindow 10 50)\<lparr>videoCurrentTime := 3\<rparr>)
     = (sourceWithWindow 10 50)\<lparr>videoCurrentTime := 10\<rparr> \<and>
   onSeeking ((sourceWithWindow 10 50)\<lparr>videoCurrentTime := 60\<rparr>)
     = (sourceWithWindow 10 50)\<lparr>videoCurrentTime := 50\<rparr> \<and>
   onPlay ((sourceWithWindow 10 50)\<lparr>videoCurrentTime := 60\<rparr>)
     = (sourceWithWindow 10 50)\<lparr>videoCurrentTime := 50\<rparr>"
  using onSeeking_validates [of "(sourceWithWindow 10 50)\<lparr>videoCurrentTime := 30\<rparr>"]
    onSeeking_validates [of "(sourceWithWindow 10 50)\<lparr>videoCurrentTime := 3\<rparr>"]
    onSeeking_validates [of "(sourceWithWindow 10 50)\<lparr>videoCurrentTime := 60\<rparr>"]
  by (simp add: sourceWithWindow_def)

text \<open>
  With the window \<open>[5, 100]\<close> a seek to 4.98 is not accepted: 4.98 is below
  \<open>5 - 0.01 = 4.99\<close>, and the position is set to 5.
\<close>

theorem seek_4_98_counterexample:
  "onSeeking ((sourceWithWindow 5 100)\<lparr>videoCurrentTime := 4.98\<rparr>)
     \<noteq> baseOnSeeking ((sourceWithWindow 5 100)\<lparr>videoCurrentTime := 4.98\<rparr>) \<and>
   onSeeking ((sourceWithWindow 5 100)\<lparr>videoCurrentTime := 4.98\<rparr>)
     = (sourceWithWindow 5 100)\<lparr>videoCurrentTime := 5\<rparr>"
  by (simp add: onSeeking_def baseOnSeeking_def sourceWithWindow_def loadedSource_def
      DashVideoSource_def)

text \<open>
  Claim C6, amended. With the window \<open>[5, 100]\<close> and tolerance 0.01: a seek to 5.0 is
  accepted, a seek to 4.98 is rejected with clamped time 5 (it lies below
  \<open>start - tolerance = 4.99\<close>), a seek to 4.0 is rejected with clamped time 5, and a seek
  to 150 is rejected with clamped time 100.
\<close>

theorem seek_window_5_100:
  "onSeeking ((sourceWithWindow 5 100)\<lparr>videoCurrentTime := 5\<rparr>)
     = baseOnSeeking ((sourceWithWindow 5 100)\<lparr>videoCurrentTime := 5\<rparr>) \<and>
   onSeeking ((sourceWithWindow 5 100)\<lparr>videoCurrentTime := 4.98\<rparr>)
     = (sourceWithWindow 5 100)\<lparr>videoCurrentTime := 5\<rparr> \<and>
   onSeeking ((sourceWithWindow 5 100)\<lparr>videoCurrentTime := 4\<rparr>)
     = (sourceWithWindow 5 100)\<lparr>videoCurrentTime := 5\<rparr> \<and>
   onSeeking ((sourceWithWindow 5 100)\<lparr>videoCurrentTime := 150\<rparr>)
     = (sourceWithWindow 5 100)\<lparr>videoCurrentTime := 100\<rparr>"
  by (simp add: onSeeking_def sourceWithWindow_def)

subsection \<open>The refresh triggered by the window-advance timer\<close>

text \<open>
  When the callback of the window-advance timer sends a request: the target is truthy,
  the advanced end has reached it, and the last fetch is at least
  \<open>MIN_UPDATE_INTERVAL\<close> seconds old.
\<close>

lemma onUpdate_mpdRequestsSent: "mpdRequestsSent (onUpdate s) = Suc (mpdRequestsSent s)"
  by (simp add: onUpdate_def cancelUpdateTimer_def clearTimeout_def Let_def
      split: option.splits)

lemma onSeekRangeUpdate_mpdRequestsSent:
  "mpdRequestsSent (onSeekRangeUpdate w s) =
     (if truthy (targetUpdateTime s) \<and>
         toNumber (targetUpdateTime s) \<le> seekEndTime s + (now s - w) / 1000 \<and>
         MIN_UPDATE_INTERVAL \<le> now s / 1000 - toNumber (lastMpdFetchTime s)
      then Suc (mpdRequestsSent s) else mpdRequestsSent s)"
  by (auto simp add: onSeekRangeUpdate_def Let_def setSeekRangeUpdateTimer_def setTimeout_def
      fireSeekRangeChangedEvent_def onUpdate_mpdRequestsSent cancelSeekRangeUpdateTimer_window)

text \<open>
  Claim C7. The claim asks for a refresh whenever the target is defined, the window end
  has reached it and 3 seconds have passed since the last fetch, also for a target equal
  to 0. The source tests \<^verbatim>\<open>this.targetUpdateTime_ && ...\<close>, and 0 is falsy. Here the
  target is 0 (stored by \<^verbatim>\<open>setTargetUpdateTime_\<close> for a stream whose references start
  at 2 and 4), the window end advances from 10 to 11 and the last fetch is 11 seconds
  old: no request is sent and the time of the last fetch is unchanged.
\<close>

theorem target_zero_no_refresh:
  "setTargetUpdateTime sourceWithTargetZero = Inr sourceWithTargetZero \<and>
   targetUpdateTime (advance 1 sourceWithTargetZero) = Some 0 \<and>
   seekEndTime (advance 1 sourceWithTargetZero) = 11 \<and>
   now (advance 1 sourceWithTargetZero) / 1000 = 11 \<and>
   lastMpdFetchTime (advance 1 sourceWithTargetZero) = Some 0 \<and>
   mpdRequestsSent (advance 1 sourceWithTargetZero) = mpdRequestsSent sourceWithTargetZero"
  by (simp add: sourceWithTargetZero_def loadedSource_def DashVideoSource_def liveManifest_def
      streamWithStarts_def setTargetUpdateTime_def streamStep_def getNumReferences_def
      getReference_def advance_def onSeekRangeUpdate_def cancelSeekRangeUpdateTimer_def
      truthyHandle_def truthy_def fireSeekRangeChangedEvent_def setSeekRangeUpdateTimer_def
      setTimeout_def)

subsection \<open>Growth of the window\<close>

text \<open>
  Claim C8. The claim has a window narrower than the depth widen at every advance by a
  positive time until its width reaches the depth, and the comment in the source
  (\<^verbatim>\<open>allow the seek window to grow until at least @timeShiftBufferDepth seconds\<close>)
  states that intent. The guard \<^verbatim>\<open>seekWindow + offset > this.timeShiftBufferDepth_\<close>
  stops the growth short of it: the window \<open>[0, 39.5]\<close> with depth 40 is narrower than
  the depth, yet an advance by 1 second moves both bounds, to \<open>[1, 40.5]\<close>, and so does
  every advance after it: three advances give \<open>[3, 42.5]\<close>, the width still 39.5. All
  these numbers are doubles, so the arithmetic is that of the source.
\<close>

theorem advance_stalls_below_depth:
  "seekStartTime (sourceWithWindow 0 39.5) = 0 \<and>
   seekEndTime (sourceWithWindow 0 39.5) = 39.5 \<and>
   timeShiftBufferDepth (sourceWithWindow 0 39.5) = 40 \<and>
   seekStartTime (advance 1 (sourceWithWindow 0 39.5)) = 1 \<and>
   seekEndTime (advance 1 (sourceWithWindow 0 39.5)) = 40.5 \<and>
   \<not> (seekEndTime (sourceWithWindow 0 39.5) - seekStartTime (sourceWithWindow 0 39.5)
        < seekEndTime (advance 1 (sourceWithWindow 0 39.5))
          - seekStartTime (advance 1 (sourceWithWindow 0 39.5))) \<and>
   seekStartTime (advances [1, 1, 1] (sourceWithWindow 0 39.5)) = 3 \<and>
   seekEndTime (advances [1, 1, 1] (sourceWithWindow 0 39.5)) = 42.5"
  by (simp add: advance_window example_defs)

subsection \<open>A refresh that fails\<close>

lemma onUpdate_fields:
  "manifestInfo (onUpdate s) = manifestInfo s"
  "targetUpdateTime (onUpdate s) = targetUpdateTime s"
  "timersCreated (onUpdate s) = timersCreated s"
  "seekRangeUpdateTimer (onUpdate s) = seekRangeUpdateTimer s"
  "lastMpdFetchTime (onUpdate s) = Some (now s / 1000)"
  by (simp_all add: onUpdate_def cancelUpdateTimer_def clearTimeout_def Let_def
      split: option.splits)

lemma onUpdate_updateTimer: "\<not> truthyHandle (updateTimer (onUpdate s))"
  by (simp add: onUpdate_def cancelUpdateTimer_def clearTimeout_def truthyHandle_def Let_def
      split: option.splits)

lemma onUpdate_pendingTimers:
  "pendingTimers (onUpdate s) =
     (if truthyHandle (updateTimer s)
      then filter (\<lambda>p. Some (fst p) \<noteq> updateTimer s) (pendingTimers s)
      else pendingTimers s)"
  by (auto simp add: onUpdate_def cancelUpdateTimer_def clearTimeout_def truthyHandle_def
      Let_def split: option.splits)

text \<open>
  Claim C9. A refresh whose fetch fails: \<^verbatim>\<open>onUpdate_\<close> has sent the request, and the
  rejection runs no code of the source, in whatever state \<open>s'\<close> it arrives. The attempt
  leaves the snapshot, the seek window, the time-shift buffer depth and the target as
  they were; it creates no timer, leaves no live refresh timer behind, adds no pending
  timer and leaves the window-advance timer as it was.
\<close>

theorem rejected_refresh_keeps_state:
  "onUpdate_settled Rejected s' = Inr s' \<and>
   manifestInfo (onUpdate s) = manifestInfo s \<and>
   seekStartTime (onUpdate s) = seekStartTime s \<and>
   seekEndTime (onUpdate s) = seekEndTime s \<and>
   timeShiftBufferDepth (onUpdate s) = timeShiftBufferDepth s \<and>
   targetUpdateTime (onUpdate s) = targetUpdateTime s \<and>
   seekRangeUpdateTimer (onUpdate s) = seekRangeUpdateTimer s \<and>
   timersCreated (onUpdate s) = timersCreated s \<and>
   \<not> truthyHandle (updateTimer (onUpdate s)) \<and>
   set (pendingTimers (onUpdate s)) \<subseteq> set (pendingTimers s)"
  by (simp add: onUpdate_settled_def onUpdate_fields onUpdate_window onUpdate_updateTimer
      onUpdate_pendingTimers)

subsection \<open>Teardown\<close>

lemma cancelUpdateTimer_unset:
  "updateTimer s = None \<Longrightarrow> cancelUpdateTimer s = s"
  by (simp add: cancelUpdateTimer_def truthyHandle_def)

lemma cancelSeekRangeUpdateTimer_unset:
  "seekRangeUpdateTimer s = None \<Longrightarrow> cancelSeekRangeUpdateTimer s = s"
  by (simp add: cancelSeekRangeUpdateTimer_def truthyHandle_def)

lemma destroy_timers:
  assumes "updateTimer s \<noteq> Some 0" and "seekRangeUpdateTimer s \<noteq> Some 0"
  shows "updateTimer (destroy s) = None"
    and "seekRangeUpdateTimer (destroy s) = None"
    and "pendingTimers (destroy s) =
           filter (\<lambda>p. Some (fst p) \<noteq> updateTimer s \<and> Some (fst p) \<noteq> seekRangeUpdateTimer s)
             (pendingTimers s)"
    and "timersCreated (destroy s) = timersCreated s"
  using assms
  by (auto simp add: destroy_def baseDestroy_def cancelUpdateTimer_def
      cancelSeekRangeUpdateTimer_def clearTimeout_def truthyHandle_def Let_def
      split: option.splits intro: filter_cong)

lemma onUpdate_fulfilled_result:
  "onUpdate_fulfilled m s =
     Inr (s\<lparr> timeShiftBufferDepth := orZero (mpd_timeShiftBufferDepth m),
             manifestInfo := Some (processed m),
             timersCreated := Suc (timersCreated s),
             pendingTimers := pendingTimers s @
               [(Suc (timersCreated s), OnUpdate,
                 1000 * max (orZero (mpd_minUpdatePeriod m)) MIN_UPDATE_INTERVAL)],
             updateTimer := Some (Suc (timersCreated s)),
             targetUpdateTime := estimate_spec (processed m) \<rparr>)"
  using loopPeriods_estimate [of "processed m"]
  by (simp add: onUpdate_fulfilled_def updateManifest_def setUpdateTimer_def setTimeout_def
      setTargetUpdateTime_def Let_def)

text \<open>
  A refresh is in flight when the source is destroyed, and is fulfilled afterwards: the
  callback is not a no-op. It stores the new depth and snapshot, arms the refresh timer
  again and recomputes the target.
\<close>

theorem callback_after_destroy_counterexample:
  "onUpdate_settled (Fulfilled fetchedMpd) (destroy sourceRefreshing)
     \<noteq> Inr (destroy sourceRefreshing) \<and>
   onUpdate_settled (Fulfilled fetchedMpd) (destroy sourceRefreshing)
     = Inr ((destroy sourceRefreshing)
              \<lparr> timeShiftBufferDepth := 30,
                manifestInfo := Some (processed fetchedMpd),
                timersCreated := 3,
                pendingTimers := [(3, OnUpdate, 5000)],
                updateTimer := Some 3,
                targetUpdateTime := Some 18 \<rparr>)"
  by (simp add: onUpdate_settled_def onUpdate_fulfilled_def updateManifest_def
      setUpdateTimer_def setTimeout_def setTargetUpdateTime_def streamStep_def
      getNumReferences_def getReference_def orZero_def truthy_def MIN_UPDATE_INTERVAL_def
      destroy_def baseDestroy_def cancelUpdateTimer_def cancelSeekRangeUpdateTimer_def
      clearTimeout_def truthyHandle_def sourceRefreshing_def fetchedMpd_def example_defs)

text \<open>
  Claim C10, amended. \<^verbatim>\<open>destroy\<close> cancels both timers (the handles of
  \<^verbatim>\<open>window.setTimeout\<close> are positive): afterwards both fields are \<^verbatim>\<open>null\<close> and the
  registry holds neither handle. Cancelling an unset timer changes nothing. The callback of
  a refresh fulfilled after \<^verbatim>\<open>destroy\<close> is not guarded: it stores the fetched depth
  and snapshot, arms the refresh timer and recomputes the target, as it does before
  teardown.
\<close>

theorem destroy_cancels_timers:
  assumes "updateTimer s \<noteq> Some 0" and "seekRangeUpdateTimer s \<noteq> Some 0"
  shows "updateTimer (destroy s) = None \<and>
         seekRangeUpdateTimer (destroy s) = None \<and>
         pendingTimers (destroy s) =
           filter (\<lambda>p. Some (fst p) \<noteq> updateTimer s \<and> Some (fst p) \<noteq> seekRangeUpdateTimer s)
             (pendingTimers s) \<and>
         cancelUpdateTimer (destroy s) = destroy s \<and>
         cancelSeekRangeUpdateTimer (destroy s) = destroy s \<and>
         cancelUpdateTimer (s'\<lparr>updateTimer := None\<rparr>) = s'\<lparr>updateTimer := None\<rparr> \<and>
         cancelSeekRangeUpdateTimer (s'\<lparr>seekRangeUpdateTimer := None\<rparr>)
           = s'\<lparr>seekRangeUpdateTimer := None\<rparr> \<and>
         onUpdate_settled (Fulfilled m) (destroy s) =
           Inr ((destroy s)
                  \<lparr> timeShiftBufferDepth := orZero (mpd_timeShiftBufferDepth m),
                    manifestInfo := Some (processed m),
                    timersCreated := Suc (timersCreated s),
                    pendingTimers := pendingTimers (destroy s) @
                      [(Suc (timersCreated s), OnUpdate,
                        1000 * max (orZero (mpd_minUpdatePeriod m)) MIN_UPDATE_INTERVAL)],
                    updateTimer := Some (Suc (timersCreated s)),
                    targetUpdateTime := estimate_spec (processed m) \<rparr>)"
proof -
  note d = destroy_timers [OF assms]
  show ?thesis
    by (simp add: d cancelUpdateTimer_unset cancelSeekRangeUpdateTimer_unset
        onUpdate_settled_def onUpdate_fulfilled_result)
qed

theorem destroy_cancels_timers_witness:
  "updateTimer sourceArmed = Some 1 \<and>
   seekRangeUpdateTimer sourceArmed = Some 2 \<and>
   pendingTimers sourceArmed = [(1, OnUpdate, 3000), (2, OnSeekRangeUpdate 0, 1000)] \<and>
   updateTimer (destroy sourceArmed) = None \<and>
   seekRangeUpdateTimer (destroy sourceArmed) = None \<and>
   pendingTimers (destroy sourceArmed) = [] \<and>
   onUpdate_settled (Fulfilled fetchedMpd) (destroy sourceArmed) =
     Inr ((destroy sourceArmed)
            \<lparr> timeShiftBufferDepth := 30,
              manifestInfo := Some (processed fetchedMpd),
              timersCreated := 3,
              pendingTimers := [(3, OnUpdate, 5000)],
              updateTimer := Some 3,
              targetUpdateTime := estimate_spec (processed fetchedMpd) \<rparr>)"
proof -
  have u: "updateTimer sourceArmed \<noteq> Some 0" and r: "seekRangeUpdateTimer sourceArmed \<noteq> Some 0"
    by (simp_all add: sourceArmed_def)
  have f: "updateTimer sourceArmed = Some 1 \<and>
   seekRangeUpdateTimer sourceArmed = Some 2 \<and> timersCreated sourceArmed = 2 \<and>
   pendingTimers sourceArmed = [(1, OnUpdate, 3000), (2, OnSeekRangeUpdate 0, 1000)]"
    by (simp add: sourceArmed_def)
  have m: "orZero (mpd_timeShiftBufferDepth fetchedMpd) = 30 \<and>
    1000 * max (orZero (mpd_minUpdatePeriod fetchedMpd)) MIN_UPDATE_INTERVAL = 5000"
    by (simp add: fetchedMpd_def orZero_def truthy_def MIN_UPDATE_INTERVAL_def)
  show ?thesis
    using destroy_cancels_timers [OF u r, where m = fetchedMpd] f m by simp
qed


end
